theory Spec2Isabelle
  imports Complex_Main "HOL-Library.Sublist" "HOL-Library.AList"
begin

section \<open>Voices from History: the Gemini service layer\<close>

text \<open>
  The service module (\<^verbatim>\<open>src/unnamed/part_001\<close>, imported by \<^verbatim>\<open>App.tsx\<close> as
  \<^verbatim>\<open>./services/geminiService\<close>) and the part of \<^verbatim>\<open>App.tsx\<close> that drives it.
  The module is an ES module, so its code runs in strict mode.

  A JavaScript string is modelled as a \<^typ>\<open>string\<close>: one \<^typ>\<open>char\<close> stands for one
  code unit, so the strings of the model are those over the code units 0 to 255.
\<close>

subsection \<open>Strings\<close>

text \<open>
  \<^verbatim>\<open>String.prototype.trim\<close> removes white space and line terminators from both ends.
  Among the code units 0 to 255 these are TAB, LF, VT, FF, CR, SPACE and NBSP.
\<close>

definition is_space :: "char \<Rightarrow> bool" where
  "is_space c = (of_char c \<in> {9, 10, 11, 12, 13, 32, 160 :: nat})"

definition trim :: "string \<Rightarrow> string" where
  "trim s = rev (dropWhile is_space (rev (dropWhile is_space s)))"

text \<open>
  \<^verbatim>\<open>String.prototype.toLowerCase\<close> on the code units 0 to 255: the letters A to Z and
  the Latin-1 capitals 0xC0 to 0xDE (0xD7, the multiplication sign, is no letter) move to
  their lower-case forms; every other code unit stays.
\<close>

definition upper_letters :: string where
  "upper_letters = ''ABCDEFGHIJKLMNOPQRSTUVWXYZ'' @
     [CHR 0xC0, CHR 0xC1, CHR 0xC2, CHR 0xC3, CHR 0xC4, CHR 0xC5, CHR 0xC6, CHR 0xC7,
      CHR 0xC8, CHR 0xC9, CHR 0xCA, CHR 0xCB, CHR 0xCC, CHR 0xCD, CHR 0xCE, CHR 0xCF,
      CHR 0xD0, CHR 0xD1, CHR 0xD2, CHR 0xD3, CHR 0xD4, CHR 0xD5, CHR 0xD6,
      CHR 0xD8, CHR 0xD9, CHR 0xDA, CHR 0xDB, CHR 0xDC, CHR 0xDD, CHR 0xDE]"

definition lower_letters :: string where
  "lower_letters = ''abcdefghijklmnopqrstuvwxyz'' @
     [CHR 0xE0, CHR 0xE1, CHR 0xE2, CHR 0xE3, CHR 0xE4, CHR 0xE5, CHR 0xE6, CHR 0xE7,
      CHR 0xE8, CHR 0xE9, CHR 0xEA, CHR 0xEB, CHR 0xEC, CHR 0xED, CHR 0xEE, CHR 0xEF,
      CHR 0xF0, CHR 0xF1, CHR 0xF2, CHR 0xF3, CHR 0xF4, CHR 0xF5, CHR 0xF6,
      CHR 0xF8, CHR 0xF9, CHR 0xFA, CHR 0xFB, CHR 0xFC, CHR 0xFD, CHR 0xFE]"

definition toLowerCase :: "string \<Rightarrow> string" where
  "toLowerCase s =
     map (\<lambda>c. case map_of (zip upper_letters lower_letters) c of Some l \<Rightarrow> l | None \<Rightarrow> c) s"

text \<open>\<^verbatim>\<open>String.prototype.includes\<close>: the first string occurs in the second one.\<close>

fun starts_with :: "string \<Rightarrow> string \<Rightarrow> bool" where
  "starts_with [] s = True"
| "starts_with (p # ps) [] = False"
| "starts_with (p # ps) (c # cs) = (p = c \<and> starts_with ps cs)"

fun str_includes :: "string \<Rightarrow> string \<Rightarrow> bool" where
  "str_includes p [] = (p = [])"
| "str_includes p (c # cs) = (starts_with p (c # cs) \<or> str_includes p cs)"

text \<open>
  \<^verbatim>\<open>s.replace(re, '')\<close> for a global regular expression whose matches all have the
  length \<open>n\<close>: \<open>hit\<close> tells whether a match starts at the head of the rest; the
  scan goes from left to right and continues behind a match.
\<close>

function remove_matches :: "(string \<Rightarrow> bool) \<Rightarrow> nat \<Rightarrow> string \<Rightarrow> string" where
  "remove_matches hit n [] = []"
| "remove_matches hit n (c # cs) =
     (if hit (c # cs) then remove_matches hit n (drop (n - 1) cs)
      else c # remove_matches hit n cs)"
  by pat_completeness auto
termination
  by (relation "measure (\<lambda>(hit, n, s). length s)") auto

text \<open>\<^verbatim>\<open>indexOf\<close> and \<^verbatim>\<open>lastIndexOf\<close> of a single character; \<open>-1\<close> when it is absent.\<close>

fun indexOf_from :: "char \<Rightarrow> string \<Rightarrow> int \<Rightarrow> int" where
  "indexOf_from x [] i = -1"
| "indexOf_from x (c # cs) i = (if c = x then i else indexOf_from x cs (i + 1))"

definition indexOf :: "char \<Rightarrow> string \<Rightarrow> int" where
  "indexOf x s = indexOf_from x s 0"

fun lastIndexOf_from :: "char \<Rightarrow> string \<Rightarrow> int \<Rightarrow> int \<Rightarrow> int" where
  "lastIndexOf_from x [] i found = found"
| "lastIndexOf_from x (c # cs) i found =
     lastIndexOf_from x cs (i + 1) (if c = x then i else found)"

definition lastIndexOf :: "char \<Rightarrow> string \<Rightarrow> int" where
  "lastIndexOf x s = lastIndexOf_from x s 0 (-1)"

text \<open>\<^verbatim>\<open>s.substring(a, b)\<close> for \<open>0 \<le> a \<le> b\<close>, the only case the module uses.\<close>

definition substring :: "string \<Rightarrow> int \<Rightarrow> int \<Rightarrow> string" where
  "substring s a b = take (nat b - nat a) (drop (nat a) s)"

subsection \<open>The retry executor\<close>

text \<open>
  A value caught by \<^verbatim>\<open>catch (error: any)\<close>. \<open>status\<close> and \<open>code\<close> hold the value of
  the property of that name when it is a number; \<open>message\<close> holds the property
  \<^verbatim>\<open>message\<close> when it is a string and is \<open>None\<close> when the value has no such
  property (a thrown value whose \<^verbatim>\<open>message\<close> is neither is not modelled).
  \<open>instance_of_Error\<close> is what \<^verbatim>\<open>error instanceof Error\<close> answers and \<open>as_string\<close> is
  what \<^verbatim>\<open>String(error)\<close> returns.
\<close>

record thrown =
  instance_of_Error :: bool
  status :: "int option"
  code :: "int option"
  message :: "string option"
  as_string :: string

text \<open>\<^verbatim>\<open>new Error(msg)\<close>.\<close>

definition new_Error :: "string \<Rightarrow> thrown" where
  "new_Error msg =
     \<lparr>instance_of_Error = True, status = None, code = None, message = Some msg,
      as_string = ''Error: '' @ msg\<rparr>"

definition MAX_RETRIES :: nat where
  "MAX_RETRIES = 3"

definition INITIAL_DELAY_MS :: nat where
  "INITIAL_DELAY_MS = 2000"

definition isQuotaError :: "thrown \<Rightarrow> bool" where
  "isQuotaError error =
     (status error = Some 429 \<or> code error = Some 429 \<or>
      (case message error of
         None \<Rightarrow> False
       | Some m \<Rightarrow> m \<noteq> [] \<and>
           (str_includes ''429'' m \<or> str_includes ''quota'' m \<or> str_includes ''RESOURCE_EXHAUSTED'' m)))"

text \<open>
  The outcome of one run of \<^verbatim>\<open>withRetry\<close>: what the promise settles to, the delays
  waited in order (the arguments of \<^verbatim>\<open>setTimeout\<close>, in milliseconds), and the number
  of calls of the operation made so far.
\<close>

record 'a retry_run =
  settled :: "thrown + 'a"
  delays :: "nat list"
  calls :: nat

text \<open>
  \<^verbatim>\<open>operation\<close> is a closure that may answer differently at each call: \<open>operation n\<close>
  is the outcome of the call made after \<open>n\<close> earlier calls. The recursion of the source
  is on \<^verbatim>\<open>retries\<close>.
\<close>

fun withRetry :: "(nat \<Rightarrow> thrown + 'a) \<Rightarrow> nat \<Rightarrow> nat \<Rightarrow> nat \<Rightarrow> 'a retry_run" where
  "withRetry operation 0 delay n =
     \<lparr>settled = operation n, delays = [], calls = Suc n\<rparr>"
| "withRetry operation (Suc retries) delay n =
     (case operation n of
        Inr v \<Rightarrow> \<lparr>settled = Inr v, delays = [], calls = Suc n\<rparr>
      | Inl error \<Rightarrow>
          if isQuotaError error
          then (let r = withRetry operation retries (delay * 2) (Suc n)
                in r\<lparr>delays := delay # delays r\<rparr>)
          else \<lparr>settled = Inl error, delays = [], calls = Suc n\<rparr>)"

subsection \<open>JavaScript values\<close>

text \<open>
  The values the module handles as \<^verbatim>\<open>any\<close>: what \<^verbatim>\<open>JSON.parse\<close> returns, and what
  the normalisation makes of it.
  \<^item> \<open>JNum\<close> carries a number as the text \<^verbatim>\<open>String\<close> gives for it (\<open>''0''\<close> for both
    zeros): the module only converts numbers to strings and tests them for truthiness.
  \<^item> \<open>JObj\<close> carries the own properties in creation order. \<open>JArr\<close> carries the
    elements and, behind them, the named own properties that an assignment such as
    \<^verbatim>\<open>c.name = ...\<close> creates on an array; \<^verbatim>\<open>JSON.parse\<close> returns arrays without any.
  \<^item> \<open>JInherited k\<close> is the member \<open>k\<close> of \<^verbatim>\<open>Object.prototype\<close>, which a property read
    on an object literal \<^verbatim>\<open>{}\<close> finds when the object has no own property \<open>k\<close>: a
    function, or for \<^verbatim>\<open>__proto__\<close> the prototype object itself.
\<close>

datatype jsval =
    JUndefined
  | JNull
  | JBool bool
  | JNum string
  | JStr string
  | JArr "jsval list" "(string \<times> jsval) list"
  | JObj "(string \<times> jsval) list"
  | JInherited string

subsection \<open>The JSON extractor\<close>

text \<open>The regular expressions \<^verbatim>\<open>/```json/gi\<close> and \<^verbatim>\<open>/```/g\<close>, as tests at the head of a string.\<close>

definition fence_json_at :: "string \<Rightarrow> bool" where
  "fence_json_at s = (starts_with ''```'' s \<and> toLowerCase (take 4 (drop 3 s)) = ''json'')"

definition fence_at :: "string \<Rightarrow> bool" where
  "fence_at s = starts_with ''```'' s"

text \<open>\<^verbatim>\<open>s.replace(/[\u0000-\u001F]+/g, "")\<close>.\<close>

definition strip_control :: "string \<Rightarrow> string" where
  "strip_control s = filter (\<lambda>c. \<not> (of_char c :: nat) < 32) s"

text \<open>
  \<^verbatim>\<open>JSON.parse\<close> is a parameter: \<open>None\<close> stands for its \<^verbatim>\<open>SyntaxError\<close>.
  \<open>Inl\<close> is a \<^verbatim>\<open>throw\<close>, \<open>Inr\<close> a \<^verbatim>\<open>return\<close>.
\<close>

definition extractJSON :: "(string \<Rightarrow> jsval option) \<Rightarrow> string \<Rightarrow> thrown + jsval" where
  "extractJSON JSON_parse text =
     (if text = [] then Inr JNull
      else
        let jsonString = trim text;
            jsonString = remove_matches fence_at 3 (remove_matches fence_json_at 7 jsonString);
            firstOpen = indexOf CHR ''{'' jsonString;
            lastClose = lastIndexOf CHR ''}'' jsonString
        in if firstOpen \<noteq> -1 \<and> lastClose \<noteq> -1 \<and> lastClose > firstOpen
           then
             let jsonString = substring jsonString firstOpen (lastClose + 1)
             in case JSON_parse jsonString of
                  Some v \<Rightarrow> Inr v
                | None \<Rightarrow>
                    (case JSON_parse (strip_control jsonString) of
                       Some v \<Rightarrow> Inr v
                     | None \<Rightarrow> Inl (new_Error ''Model returned invalid JSON format.''))
           else Inl (new_Error ''No JSON object found in response.''))"

text \<open>A text has a brace pair when a \<^verbatim>\<open>}\<close> stands somewhere behind its first \<^verbatim>\<open>{\<close>.\<close>

definition brace_pair :: "string \<Rightarrow> bool" where
  "brace_pair s = (CHR ''}'' \<in> set (dropWhile (\<lambda>c. c \<noteq> CHR ''{'') s))"

subsection \<open>Property access and conversions\<close>

text \<open>The one exception the normalisation can meet is the \<^verbatim>\<open>TypeError\<close> of the runtime.\<close>

datatype exception = TypeError

definition bindE :: "exception + 'a \<Rightarrow> ('a \<Rightarrow> exception + 'b) \<Rightarrow> exception + 'b" where
  "bindE m f = (case m of Inl e \<Rightarrow> Inl e | Inr x \<Rightarrow> f x)"

text \<open>The property names of \<^verbatim>\<open>Object.prototype\<close>.\<close>

definition proto_keys :: "string list" where
  "proto_keys =
     [''constructor'', ''__defineGetter__'', ''__defineSetter__'', ''hasOwnProperty'',
      ''__lookupGetter__'', ''__lookupSetter__'', ''isPrototypeOf'', ''propertyIsEnumerable'',
      ''toString'', ''valueOf'', ''__proto__'', ''toLocaleString'']"

fun truthy :: "jsval \<Rightarrow> bool" where
  "truthy JUndefined = False"
| "truthy JNull = False"
| "truthy (JBool b) = b"
| "truthy (JNum n) = (n \<noteq> ''0'' \<and> n \<noteq> ''NaN'')"
| "truthy (JStr s) = (s \<noteq> [])"
| "truthy (JArr xs ps) = True"
| "truthy (JObj kvs) = True"
| "truthy (JInherited k) = True"

fun is_array :: "jsval \<Rightarrow> bool" where
  "is_array (JArr xs ps) = True"
| "is_array v = False"

fun elements :: "jsval \<Rightarrow> jsval list" where
  "elements (JArr xs ps) = xs"
| "elements v = []"

fun named_props :: "jsval \<Rightarrow> (string \<times> jsval) list" where
  "named_props (JArr xs ps) = ps"
| "named_props v = []"

text \<open>Objects and arrays can carry properties; the other values are primitive.\<close>

fun is_object :: "jsval \<Rightarrow> bool" where
  "is_object (JObj kvs) = True"
| "is_object (JArr xs ps) = True"
| "is_object v = False"

text \<open>
  \<^verbatim>\<open>v.k\<close> for the property names the normalisation reads on its data
  (\<^verbatim>\<open>characters\<close>, \<^verbatim>\<open>script\<close>, \<^verbatim>\<open>name\<close>, \<^verbatim>\<open>gender\<close>, \<^verbatim>\<open>voice\<close>, \<^verbatim>\<open>speaker\<close>): none
  of them is an index, \<^verbatim>\<open>length\<close> or a member of a prototype, so the read finds an own
  property or \<^verbatim>\<open>undefined\<close>. Reading a property of \<^verbatim>\<open>null\<close> or \<^verbatim>\<open>undefined\<close> throws.
  The module never reads a property of an inherited member.
\<close>

fun get_prop :: "jsval \<Rightarrow> string \<Rightarrow> exception + jsval" where
  "get_prop JUndefined k = Inl TypeError"
| "get_prop JNull k = Inl TypeError"
| "get_prop (JObj kvs) k = Inr (case map_of kvs k of Some v \<Rightarrow> v | None \<Rightarrow> JUndefined)"
| "get_prop (JArr xs ps) k = Inr (case map_of ps k of Some v \<Rightarrow> v | None \<Rightarrow> JUndefined)"
| "get_prop v k = Inr JUndefined"

text \<open>
  \<^verbatim>\<open>v.k = x\<close> for the same property names, in strict mode: the assignment changes or
  creates an own property of an object or array, and throws on \<^verbatim>\<open>null\<close>,
  \<^verbatim>\<open>undefined\<close> and on a primitive value.
\<close>

fun set_prop :: "jsval \<Rightarrow> string \<Rightarrow> jsval \<Rightarrow> exception + jsval" where
  "set_prop (JObj kvs) k x = Inr (JObj (AList.update k x kvs))"
| "set_prop (JArr xs ps) k x = Inr (JArr xs (AList.update k x ps))"
| "set_prop v k x = Inl TypeError"

text \<open>
  \<^verbatim>\<open>String(v)\<close>. An array joins the strings of its elements with commas, \<^verbatim>\<open>null\<close>
  elements counting as empty. An object has the inherited \<^verbatim>\<open>toString\<close>, which answers
  \<^verbatim>\<open>[object Object]\<close>, unless it has an own property \<^verbatim>\<open>toString\<close>: a value from
  \<^verbatim>\<open>JSON.parse\<close> cannot be called, the inherited \<^verbatim>\<open>valueOf\<close> returns the object, and
  the conversion throws. The text of a built-in function is the one V8 prints.
\<close>

fun join_strings :: "(exception + string) list \<Rightarrow> exception + string" where
  "join_strings [] = Inr []"
| "join_strings [m] = m"
| "join_strings (m # ms) =
     bindE m (\<lambda>s. bindE (join_strings ms) (\<lambda>r. Inr (s @ '','' @ r)))"

fun to_string :: "jsval \<Rightarrow> exception + string" where
  "to_string JUndefined = Inr ''undefined''"
| "to_string JNull = Inr ''null''"
| "to_string (JBool b) = Inr (if b then ''true'' else ''false'')"
| "to_string (JNum n) = Inr n"
| "to_string (JStr s) = Inr s"
| "to_string (JArr xs ps) =
     join_strings (map (\<lambda>x. if x = JNull \<or> x = JUndefined then Inr [] else to_string x) xs)"
| "to_string (JObj kvs) =
     (if ''toString'' \<in> fst ` set kvs then Inl TypeError else Inr ''[object Object]'')"
| "to_string (JInherited k) =
     Inr (if k = ''__proto__'' then ''[object Object]''
          else ''function '' @ (if k = ''constructor'' then ''Object'' else k) @
               ''() { [native code] }'')"

text \<open>The decimal text of a natural number, as a template literal prints it.\<close>

fun string_of_nat :: "nat \<Rightarrow> string" where
  "string_of_nat n =
     (if n < 10 then [''0123456789'' ! n]
      else string_of_nat (n div 10) @ [''0123456789'' ! (n mod 10)])"

subsection \<open>Object literals used as dictionaries\<close>

text \<open>
  \<^verbatim>\<open>speakerCounts\<close> and \<^verbatim>\<open>speakerMap\<close> are object literals \<^verbatim>\<open>{}\<close> indexed by speaker
  strings: an association list holds the own properties in creation order, and a read
  of a name that is no own property falls through to \<^verbatim>\<open>Object.prototype\<close>.
  Assigning a string to \<^verbatim>\<open>__proto__\<close> runs the inherited setter, which ignores it.
\<close>

definition assign :: "(string \<times> 'a) list \<Rightarrow> string \<Rightarrow> 'a \<Rightarrow> (string \<times> 'a) list" where
  "assign obj k v = (if k = ''__proto__'' then obj else AList.update k v obj)"

definition lookup :: "(string \<times> string) list \<Rightarrow> string \<Rightarrow> jsval" where
  "lookup obj k =
     (case map_of obj k of
        Some v \<Rightarrow> JStr v
      | None \<Rightarrow> if k \<in> set proto_keys then JInherited k else JUndefined)"

text \<open>
  \<^verbatim>\<open>Object.keys\<close>: the array indices (canonical decimal texts of the integers below
  \<open>2\<^sup>3\<^sup>2 - 1\<close>) in ascending order, then the other names in creation order.
\<close>

definition is_digit :: "char \<Rightarrow> bool" where
  "is_digit c = (48 \<le> (of_char c :: nat) \<and> (of_char c :: nat) \<le> 57)"

definition int_of_digits :: "string \<Rightarrow> int" where
  "int_of_digits s = foldl (\<lambda>n c. 10 * n + (of_char c - 48)) 0 s"

definition is_array_index :: "string \<Rightarrow> bool" where
  "is_array_index s =
     (s \<noteq> [] \<and> list_all is_digit s \<and> (length s = 1 \<or> hd s \<noteq> CHR ''0'') \<and>
      int_of_digits s < 4294967295)"

definition object_keys :: "(string \<times> 'a) list \<Rightarrow> string list" where
  "object_keys obj =
     sort_key int_of_digits (filter is_array_index (map fst obj)) @
     filter (\<lambda>k. \<not> is_array_index k) (map fst obj)"

text \<open>
  \<^verbatim>\<open>Array.prototype.sort\<close> with a comparison function is stable: an insertion sort in
  which an element stays in front of the later ones it does not compare greater than.
  Where the comparison is consistent, every stable sort returns this list.
\<close>

fun insert_sorted :: "('a \<Rightarrow> 'a \<Rightarrow> int) \<Rightarrow> 'a \<Rightarrow> 'a list \<Rightarrow> 'a list" where
  "insert_sorted cmp x [] = [x]"
| "insert_sorted cmp x (y # ys) =
     (if cmp x y \<le> 0 then x # y # ys else y # insert_sorted cmp x ys)"

definition array_sort :: "('a \<Rightarrow> 'a \<Rightarrow> int) \<Rightarrow> 'a list \<Rightarrow> 'a list" where
  "array_sort cmp xs = foldr (insert_sorted cmp) xs []"

subsection \<open>The scenario normaliser\<close>

definition maleVoices :: "string list" where
  "maleVoices = [''Puck'', ''Fenrir'', ''Charon'', ''Zephyr'']"

definition femaleVoices :: "string list" where
  "femaleVoices = [''Kore'', ''Aoede'']"

definition voices_of :: "string \<Rightarrow> string list" where
  "voices_of gender = (if gender = ''female'' then femaleVoices else maleVoices)"

text \<open>The object pushed while \<^verbatim>\<open>data.characters.length < 2\<close>.\<close>

definition default_character :: "nat \<Rightarrow> jsval" where
  "default_character nextId =
     (let isMale = (nextId mod 2 \<noteq> 0)
      in JObj
          [(''name'', JStr (''Speaker '' @ string_of_nat nextId)),
           (''gender'', JStr (if isMale then ''male'' else ''female'')),
           (''voice'', JStr (if isMale then ''Puck'' else ''Kore'')),
           (''visualDescription'', JStr ''A person from this historical period.''),
           (''bio'', JStr ''A local inhabitant of this era.'')])"

function pad_characters :: "jsval list \<Rightarrow> jsval list" where
  "pad_characters cs =
     (if length cs < 2 then pad_characters (cs @ [default_character (length cs + 1)]) else cs)"
  by pat_completeness auto
termination
  by (relation "measure (\<lambda>cs. 2 - length cs)") auto

text \<open>
  The body of \<^verbatim>\<open>data.characters.forEach\<close>: the name becomes a trimmed string and the
  gender one of \<^verbatim>\<open>male\<close> and \<^verbatim>\<open>female\<close>. The result carries the new name beside the
  changed object.
\<close>

definition sanitize_character :: "jsval \<Rightarrow> exception + (string \<times> jsval)" where
  "sanitize_character c =
     bindE (get_prop c ''name'') (\<lambda>raw.
     bindE (to_string raw) (\<lambda>s.
     bindE (set_prop c ''name'' (JStr (trim s))) (\<lambda>c.
     bindE (get_prop c ''gender'') (\<lambda>g.
     bindE (if g \<noteq> JStr ''male'' \<and> g \<noteq> JStr ''female''
            then set_prop c ''gender'' (JStr ''male'') else Inr c) (\<lambda>c.
     Inr (trim s, c))))))"

text \<open>
  \<^verbatim>\<open>Math.random()\<close> is a parameter: \<open>rnd i\<close> is the number returned by the call made
  after \<open>i\<close> earlier calls, a real number from 0 up to but excluding 1.
  \<open>random_element\<close> is \<^verbatim>\<open>xs[Math.floor(Math.random() * xs.length)]\<close>.
\<close>

definition random_element :: "string list \<Rightarrow> real \<Rightarrow> jsval" where
  "random_element xs r =
     (let k = \<lfloor>r * real (length xs)\<rfloor>
      in if 0 \<le> k \<and> k < int (length xs) then JStr (xs ! nat k) else JUndefined)"

text \<open>The result carries the number of calls of \<^verbatim>\<open>Math.random\<close> made so far.\<close>

definition getValidVoice :: "(nat \<Rightarrow> real) \<Rightarrow> nat \<Rightarrow> jsval \<Rightarrow> jsval \<Rightarrow> exception + (jsval \<times> nat)" where
  "getValidVoice rnd i char takenVoice =
     bindE (get_prop char ''gender'') (\<lambda>g.
     bindE (get_prop char ''voice'') (\<lambda>v.
       let voiceList = (if g = JStr ''female'' then femaleVoices else maleVoices)
       in if v \<in> JStr ` set voiceList \<and> v \<noteq> takenVoice then Inr (v, i)
          else
            let available = filter (\<lambda>x. JStr x \<noteq> takenVoice) voiceList
            in if length available > 0 then Inr (random_element available (rnd i), Suc i)
               else Inr (random_element voiceList (rnd i), Suc i)))"

text \<open>
  \<^verbatim>\<open>Ensure distinct names\<close>: equal names get the suffixes \<^verbatim>\<open> (1)\<close> and \<^verbatim>\<open> (2)\<close>.
  The result carries the two names beside the two objects.
\<close>

definition distinct_names ::
    "string \<Rightarrow> jsval \<Rightarrow> string \<Rightarrow> jsval \<Rightarrow> exception + (string \<times> jsval \<times> string \<times> jsval)" where
  "distinct_names n0 c0 n1 c1 =
     (if n0 = n1
      then bindE (set_prop c0 ''name'' (JStr (n0 @ '' (1)''))) (\<lambda>c0.
           bindE (set_prop c1 ''name'' (JStr (n1 @ '' (2)''))) (\<lambda>c1.
           Inr (n0 @ '' (1)'', c0, n1 @ '' (2)'', c1)))
      else Inr (n0, c0, n1, c1))"

text \<open>
  Steps 1 and 2 of the normalisation, on the elements of \<^verbatim>\<open>data.characters\<close>: the
  result is the new array of two characters with their two names.
\<close>

definition normalize_characters ::
    "(nat \<Rightarrow> real) \<Rightarrow> jsval list \<Rightarrow> exception + (jsval list \<times> string \<times> string)" where
  "normalize_characters rnd cs =
     (case take 2 (pad_characters cs) of
        [c0, c1] \<Rightarrow>
          bindE (sanitize_character c0) (\<lambda>(n0, c0).
          bindE (sanitize_character c1) (\<lambda>(n1, c1).
          bindE (distinct_names n0 c0 n1 c1) (\<lambda>(n0, char1, n1, char2).
          bindE (getValidVoice rnd 0 char1 JUndefined) (\<lambda>(v1, i).
          bindE (set_prop char1 ''voice'' v1) (\<lambda>char1.
          bindE (getValidVoice rnd i char2 v1) (\<lambda>(v2, j).
          bindE (set_prop char2 ''voice'' v2) (\<lambda>char2.
          Inr ([char1, char2], n0, n1))))))))
      | _ \<Rightarrow> Inl TypeError)"

text \<open>
  \<^verbatim>\<open>speakerCounts\<close>: a count is \<open>Some n\<close> for the number \<open>n\<close> and \<open>None\<close> for a string
  that is no number, which is what \<^verbatim>\<open>+ 1\<close> makes of an inherited function and of such
  a string. For \<^verbatim>\<open>__proto__\<close> the assignment is ignored.
\<close>

definition count_speaker :: "(string \<times> nat option) list \<Rightarrow> string \<Rightarrow> (string \<times> nat option) list" where
  "count_speaker speakerCounts s =
     (case map_of speakerCounts s of
        Some (Some n) \<Rightarrow> assign speakerCounts s (Some (n + 1))
      | Some None \<Rightarrow> assign speakerCounts s None
      | None \<Rightarrow> assign speakerCounts s (if s \<in> set proto_keys then None else Some 1))"

text \<open>The body of the first \<^verbatim>\<open>data.script.forEach\<close>.\<close>

definition count_line ::
    "jsval \<Rightarrow> (string \<times> nat option) list \<Rightarrow> exception + (jsval \<times> (string \<times> nat option) list)" where
  "count_line line speakerCounts =
     bindE (get_prop line ''speaker'') (\<lambda>sp.
     bindE (if \<not> truthy sp then set_prop line ''speaker'' (JStr ''Unknown'') else Inr line) (\<lambda>line.
     bindE (get_prop line ''speaker'') (\<lambda>sp.
     bindE (to_string sp) (\<lambda>s.
     bindE (set_prop line ''speaker'' (JStr (trim s))) (\<lambda>line.
     Inr (line, count_speaker speakerCounts (trim s)))))))"

fun count_lines ::
    "jsval list \<Rightarrow> (string \<times> nat option) list \<Rightarrow> exception + (jsval list \<times> (string \<times> nat option) list)" where
  "count_lines [] speakerCounts = Inr ([], speakerCounts)"
| "count_lines (line # rest) speakerCounts =
     bindE (count_line line speakerCounts) (\<lambda>(line, speakerCounts).
     bindE (count_lines rest speakerCounts) (\<lambda>(rest, speakerCounts).
     Inr (line # rest, speakerCounts)))"

text \<open>
  The comparison \<^verbatim>\<open>(a,b) => speakerCounts[b] - speakerCounts[a]\<close>; where a count is no
  number the difference is \<^verbatim>\<open>NaN\<close>, which \<^verbatim>\<open>sort\<close> reads as 0.
\<close>

definition by_count :: "(string \<times> nat option) list \<Rightarrow> string \<Rightarrow> string \<Rightarrow> int" where
  "by_count speakerCounts a b =
     (case (map_of speakerCounts b, map_of speakerCounts a) of
        (Some (Some m), Some (Some n)) \<Rightarrow> int m - int n
      | _ \<Rightarrow> 0)"

definition fuzzy_match :: "string \<Rightarrow> string \<Rightarrow> bool" where
  "fuzzy_match s name =
     (s = name \<or> str_includes (toLowerCase s) (toLowerCase name) \<or>
      str_includes (toLowerCase name) (toLowerCase s))"

text \<open>The body of \<^verbatim>\<open>scriptSpeakers.forEach\<close>.\<close>

definition match_speaker :: "string \<Rightarrow> string \<Rightarrow> (string \<times> string) list \<Rightarrow> string \<Rightarrow> (string \<times> string) list" where
  "match_speaker name1 name2 speakerMap s =
     (if fuzzy_match s name1 then assign speakerMap s name1
      else if fuzzy_match s name2 then assign speakerMap s name2
      else speakerMap)"

text \<open>\<^verbatim>\<open>isChar1Used\<close> and \<^verbatim>\<open>isChar2Used\<close>.\<close>

definition isCharUsed :: "(string \<times> string) list \<Rightarrow> string \<Rightarrow> bool" where
  "isCharUsed speakerMap name = (name \<in> set (map snd speakerMap))"

text \<open>\<^verbatim>\<open>unmapped[i]\<close> is truthy: the index is in range and the string is not empty.\<close>

definition has_speaker_at :: "string list \<Rightarrow> nat \<Rightarrow> bool" where
  "has_speaker_at unmapped i = (i < length unmapped \<and> unmapped ! i \<noteq> [])"

text \<open>
  From the sorted speakers to the final \<^verbatim>\<open>speakerMap\<close>: the fuzzy matching, the two
  priority assignments and the loop over the remaining unmapped speakers.
\<close>

definition build_speakerMap :: "string \<Rightarrow> string \<Rightarrow> string list \<Rightarrow> (string \<times> string) list" where
  "build_speakerMap name1 name2 scriptSpeakers =
     (let speakerMap = foldl (match_speaker name1 name2) [] scriptSpeakers;
          unmapped = filter (\<lambda>s. \<not> truthy (lookup speakerMap s)) scriptSpeakers;
          (speakerMap, unmappedIndex) =
            (if \<not> isCharUsed speakerMap name1 \<and> has_speaker_at unmapped 0
             then (assign speakerMap (unmapped ! 0) name1, 1) else (speakerMap, 0));
          (speakerMap, unmappedIndex) =
            (if \<not> isCharUsed speakerMap name2 \<and> has_speaker_at unmapped unmappedIndex
             then (assign speakerMap (unmapped ! unmappedIndex) name2, unmappedIndex + 1)
             else (speakerMap, unmappedIndex))
      in foldl (\<lambda>m s. assign m s name1) speakerMap (drop unmappedIndex unmapped))"

text \<open>The body of the last \<^verbatim>\<open>data.script.forEach\<close>.\<close>

definition apply_mapping :: "(string \<times> string) list \<Rightarrow> string \<Rightarrow> jsval \<Rightarrow> exception + jsval" where
  "apply_mapping speakerMap name1 line =
     bindE (get_prop line ''speaker'') (\<lambda>sp.
     bindE (to_string sp) (\<lambda>key.
       if truthy (lookup speakerMap key) then set_prop line ''speaker'' (lookup speakerMap key)
       else set_prop line ''speaker'' (JStr name1)))"

fun for_each :: "('a \<Rightarrow> exception + 'b) \<Rightarrow> 'a list \<Rightarrow> exception + 'b list" where
  "for_each f [] = Inr []"
| "for_each f (x # xs) = bindE (f x) (\<lambda>y. bindE (for_each f xs) (\<lambda>ys. Inr (y # ys)))"

text \<open>Step 3 of the normalisation, on the elements of \<^verbatim>\<open>data.script\<close>.\<close>

definition normalize_script :: "string \<Rightarrow> string \<Rightarrow> jsval list \<Rightarrow> exception + jsval list" where
  "normalize_script name1 name2 script =
     bindE (count_lines script []) (\<lambda>(script, speakerCounts).
       let scriptSpeakers = array_sort (by_count speakerCounts) (object_keys speakerCounts);
           speakerMap = build_speakerMap name1 name2 scriptSpeakers
       in for_each (apply_mapping speakerMap name1) script)"

text \<open>
  The normalisation stage of \<^verbatim>\<open>researchLocationAndDate\<close>, from the comment
  \<^verbatim>\<open>ROBUST DATA NORMALIZATION\<close> to the end of the last loop: \<open>data\<close> is what
  \<^verbatim>\<open>extractJSON\<close> returned, and the result is \<open>data\<close> as the stage leaves it.
\<close>

definition normalize :: "(nat \<Rightarrow> real) \<Rightarrow> jsval \<Rightarrow> exception + jsval" where
  "normalize rnd data =
     bindE (get_prop data ''characters'') (\<lambda>cs.
     bindE (if \<not> truthy cs \<or> \<not> is_array cs
            then set_prop data ''characters'' (JArr [] []) else Inr data) (\<lambda>data.
     bindE (get_prop data ''characters'') (\<lambda>cs.
     bindE (normalize_characters rnd (elements cs)) (\<lambda>(characters, name1, name2).
     bindE (set_prop data ''characters'' (JArr characters [])) (\<lambda>data.
     bindE (get_prop data ''script'') (\<lambda>sc.
     bindE (if \<not> truthy sc \<or> \<not> is_array sc
            then set_prop data ''script'' (JArr [] []) else Inr data) (\<lambda>data.
     bindE (get_prop data ''script'') (\<lambda>sc.
     bindE (normalize_script name1 name2 (elements sc)) (\<lambda>script.
     set_prop data ''script'' (JArr script (named_props sc)))))))))))"

subsection \<open>The typed Scenario\<close>

text \<open>
  Modelled from the spec: the types \<^verbatim>\<open>HistoricalScenario\<close>, \<^verbatim>\<open>Character\<close> and
  \<^verbatim>\<open>DialogueLine\<close> of \<^verbatim>\<open>types.ts\<close>, which is not among the sources; the spec gives
  the fields. An optional field is an \<open>option\<close>. The fields \<^verbatim>\<open>text\<close> and
  \<^verbatim>\<open>translation\<close> of a line are options too, since the normalisation does not supply
  them where the research model left them out. \<open>line_text\<close> stands for \<^verbatim>\<open>text\<close> and
  \<open>scene_context\<close> for \<^verbatim>\<open>context\<close>.
\<close>

record character =
  name :: string
  gender :: string
  voice :: string
  visualDescription :: "string option"
  bio :: "string option"
  avatarUrl :: "string option"

record dialogue_line =
  speaker :: string
  line_text :: "string option"
  translation :: "string option"

record scenario =
  scene_context :: string
  accentProfile :: string
  characters :: "character list"
  script :: "dialogue_line list"

subsection \<open>The audio synthesis orchestrator\<close>

text \<open>
  The speech service answers a request with the parts of the first candidate, each
  part carrying its \<^verbatim>\<open>inlineData.data\<close> if it has one, and with a finish reason.
\<close>

record speech_response =
  parts :: "string option list"
  finishReason :: "string option"

text \<open>The \<^verbatim>\<open>TypeError\<close> of \<^verbatim>\<open>textContent.replace\<close> on a missing text (the message of V8).\<close>

definition replace_of_undefined :: thrown where
  "replace_of_undefined =
     \<lparr>instance_of_Error = True, status = None, code = None,
      message = Some ''Cannot read properties of undefined (reading 'replace')'',
      as_string = ''TypeError: Cannot read properties of undefined (reading 'replace')''\<rparr>"

definition safeNames :: "string list" where
  "safeNames = [''Speaker A'', ''Speaker B'']"

text \<open>
  \<^verbatim>\<open>safeNames[index] || `Speaker ${String.fromCharCode(65 + index)}`\<close>, for the fewer
  than 191 characters whose letter is a code unit below 256.
\<close>

definition safe_name :: "nat \<Rightarrow> string" where
  "safe_name index =
     (if index < length safeNames then safeNames ! index else ''Speaker '' @ [char_of (65 + index)])"

text \<open>
  \<^verbatim>\<open>charToSafeName\<close>, a \<^verbatim>\<open>Map\<close>: the entries in insertion order, a later character of
  the same name replacing the safe name of the earlier one.
\<close>

fun charToSafeName_from :: "nat \<Rightarrow> character list \<Rightarrow> (string \<times> string) list \<Rightarrow> (string \<times> string) list" where
  "charToSafeName_from index [] m = m"
| "charToSafeName_from index (c # cs) m =
     charToSafeName_from (Suc index) cs (AList.update (name c) (safe_name index) m)"

definition charToSafeName :: "scenario \<Rightarrow> (string \<times> string) list" where
  "charToSafeName scenario = charToSafeName_from 0 (characters scenario) []"

definition speakerVoiceConfigs :: "scenario \<Rightarrow> (string \<times> string) list" where
  "speakerVoiceConfigs scenario =
     map (\<lambda>(index, c). (safe_name index, voice c))
       (zip [0 ..< length (characters scenario)] (characters scenario))"

text \<open>
  \<^verbatim>\<open>s.replace(/\*[^*]+\*/g, '')\<close>: an asterisk, one or more characters that are no
  asterisk, and an asterisk are removed, from left to right.
\<close>

function strip_actions :: "string \<Rightarrow> string" where
  "strip_actions [] = []"
| "strip_actions (c # cs) =
     (if c = CHR ''*'' \<and> takeWhile (\<lambda>x. x \<noteq> CHR ''*'') cs \<noteq> [] \<and>
         dropWhile (\<lambda>x. x \<noteq> CHR ''*'') cs \<noteq> []
      then strip_actions (tl (dropWhile (\<lambda>x. x \<noteq> CHR ''*'') cs))
      else c # strip_actions cs)"
  by pat_completeness auto
termination
proof (relation "measure length")
  fix c :: char and cs :: string
  have "length (dropWhile (\<lambda>x. x \<noteq> CHR ''*'') cs) \<le> length cs"
    by (rule length_dropWhile_le)
  then have "length (tl (dropWhile (\<lambda>x. x \<noteq> CHR ''*'') cs)) \<le> length cs"
    by simp
  then show "(tl (dropWhile (\<lambda>x. x \<noteq> CHR ''*'') cs), c # cs) \<in> measure length"
    by simp
qed simp_all

text \<open>
  The body of \<^verbatim>\<open>scenario.script.forEach\<close> in \<^verbatim>\<open>performGeneration\<close>: the dialogue text
  so far grows by the line, or the missing text throws.
\<close>

definition render_line :: "(string \<times> string) list \<Rightarrow> bool \<Rightarrow> string \<Rightarrow> dialogue_line \<Rightarrow> thrown + string" where
  "render_line safe useTranslation dialogueText line =
     (let safeName = (case map_of safe (speaker line) of
                        Some s \<Rightarrow> if s \<noteq> [] then s else safeNames ! 0
                      | None \<Rightarrow> safeNames ! 0);
          textContent = (if useTranslation then translation line else line_text line)
      in case textContent of
           None \<Rightarrow> Inl replace_of_undefined
         | Some t \<Rightarrow>
             (let cleanText = trim (strip_actions t)
              in if cleanText \<noteq> []
                 then Inr (dialogueText @ safeName @ '': '' @ cleanText @ [CHR 0x0A])
                 else Inr dialogueText))"

fun render :: "(string \<times> string) list \<Rightarrow> bool \<Rightarrow> string \<Rightarrow> dialogue_line list \<Rightarrow> thrown + string" where
  "render safe useTranslation dialogueText [] = Inr dialogueText"
| "render safe useTranslation dialogueText (line # rest) =
     (case render_line safe useTranslation dialogueText line of
        Inl e \<Rightarrow> Inl e
      | Inr dialogueText \<Rightarrow> render safe useTranslation dialogueText rest)"

text \<open>The first part with a truthy \<^verbatim>\<open>inlineData.data\<close>.\<close>

fun first_audio :: "string option list \<Rightarrow> string option" where
  "first_audio [] = None"
| "first_audio (None # ps) = first_audio ps"
| "first_audio (Some d # ps) = (if d \<noteq> [] then Some d else first_audio ps)"

text \<open>
  \<^verbatim>\<open>performGeneration\<close>. The speech service is a parameter: \<open>speech text configs k\<close> is
  its answer to the request made after \<open>k\<close> earlier requests of this session. The
  decoder (the \<^verbatim>\<open>AudioContext\<close>, \<^verbatim>\<open>decodeBase64\<close> and \<^verbatim>\<open>decodeAudioData\<close>) is a
  parameter too and may throw. The result carries the number of requests made so far.
\<close>

definition performGeneration ::
    "(string \<Rightarrow> (string \<times> string) list \<Rightarrow> nat \<Rightarrow> thrown + speech_response) \<Rightarrow>
     (string \<Rightarrow> thrown + 'buffer) \<Rightarrow> scenario \<Rightarrow> bool \<Rightarrow> nat \<Rightarrow> (thrown + 'buffer) \<times> nat" where
  "performGeneration speech decode scenario useTranslation k =
     (case render (charToSafeName scenario) useTranslation [] (script scenario) of
        Inl e \<Rightarrow> (Inl e, k)
      | Inr dialogueText \<Rightarrow>
          if trim dialogueText = [] then (Inl (new_Error ''Dialogue text is empty.''), k)
          else
            let run = withRetry (speech dialogueText (speakerVoiceConfigs scenario))
                        MAX_RETRIES INITIAL_DELAY_MS k
            in case settled run of
                 Inl e \<Rightarrow> (Inl e, calls run)
               | Inr response \<Rightarrow>
                   (case first_audio (parts response) of
                      None \<Rightarrow>
                        (if finishReason response = Some ''SAFETY''
                         then (Inl (new_Error ''Audio generation was blocked by safety filters.''),
                               calls run)
                         else (Inl (new_Error (''No audio data returned from the model (Finish Reason: '' @
                                 (case finishReason response of
                                    Some r \<Rightarrow> if r \<noteq> [] then r else ''UNKNOWN''
                                  | None \<Rightarrow> ''UNKNOWN'') @ '').'')),
                               calls run))
                    | Some base64Audio \<Rightarrow> (decode base64Audio, calls run)))"

text \<open>
  \<^verbatim>\<open>fallbackError instanceof Error ? fallbackError.message : String(fallbackError)\<close>,
  as the template literal prints it.
\<close>

definition error_text :: "thrown \<Rightarrow> string" where
  "error_text e =
     (if instance_of_Error e
      then (case message e of Some m \<Rightarrow> m | None \<Rightarrow> ''undefined'')
      else as_string e)"

text \<open>
  \<^verbatim>\<open>generateDialogueAudio\<close>: what the promise settles to, the attempts made (the
  arguments of the calls of \<^verbatim>\<open>performGeneration\<close>, in order), and the number of
  requests to the speech service.
\<close>

record 'buffer audio_run =
  audio :: "thrown + 'buffer"
  attempts :: "bool list"
  requests :: nat

definition generateDialogueAudio ::
    "(string \<Rightarrow> (string \<times> string) list \<Rightarrow> nat \<Rightarrow> thrown + speech_response) \<Rightarrow>
     (string \<Rightarrow> thrown + 'buffer) \<Rightarrow> scenario \<Rightarrow> nat \<Rightarrow> 'buffer audio_run" where
  "generateDialogueAudio speech decode scenario k =
     (case performGeneration speech decode scenario False k of
        (Inr buffer, k1) \<Rightarrow> \<lparr>audio = Inr buffer, attempts = [False], requests = k1\<rparr>
      | (Inl error, k1) \<Rightarrow>
          (case performGeneration speech decode scenario True k1 of
             (Inr buffer, k2) \<Rightarrow> \<lparr>audio = Inr buffer, attempts = [False, True], requests = k2\<rparr>
           | (Inl fallbackError, k2) \<Rightarrow>
               \<lparr>audio = Inl (new_Error (''Audio generation failed: '' @ error_text fallbackError)),
                attempts = [False, True], requests = k2\<rparr>))"

subsection \<open>The avatar orchestrator and the media stage of the session coordinator\<close>

text \<open>
  \<^verbatim>\<open>generateCharacterAvatar\<close>. The image service is a parameter: \<open>image_service prompt k\<close> is
  its answer to the \<open>k\<close>-th try of the request with that prompt, the parts of the
  first candidate, each carrying its \<^verbatim>\<open>inlineData.data\<close> if it has \<^verbatim>\<open>inlineData\<close>
  (an \<^verbatim>\<open>inlineData\<close> of the service always has its \<^verbatim>\<open>data\<close>).
  Every failure is caught and becomes \<^verbatim>\<open>null\<close>, here \<open>None\<close>.
\<close>

definition avatar_prompt :: "string \<Rightarrow> string \<Rightarrow> string" where
  "avatar_prompt description scene =
     ''Generate a photorealistic, historically accurate headshot portrait of a person matching this description: '' @
     [CHR 0x22] @ description @ [CHR 0x22] @ ''.'' @ [CHR 0x0A] @
     ''    Context for clothing and style: '' @ scene @ ''.'' @ [CHR 0x0A] @
     ''    The image should be a close-up character portrait with neutral or subtle expression.'' @ [CHR 0x0A] @
     ''    High quality, authentic details.''"

fun first_image :: "string option list \<Rightarrow> string option" where
  "first_image [] = None"
| "first_image (None # ps) = first_image ps"
| "first_image (Some d # ps) = Some (''data:image/png;base64,'' @ d)"

definition generateCharacterAvatar ::
    "(string \<Rightarrow> nat \<Rightarrow> thrown + string option list) \<Rightarrow> string \<Rightarrow> string \<Rightarrow> string option" where
  "generateCharacterAvatar image_service description scene =
     (case settled (withRetry (image_service (avatar_prompt description scene)) 2 INITIAL_DELAY_MS 0) of
        Inl e \<Rightarrow> None
      | Inr response \<Rightarrow> first_image response)"

text \<open>
  The function mapped over \<^verbatim>\<open>scenarioData.characters\<close> in \<^verbatim>\<open>handleSubmit\<close>: the
  calls of \<^verbatim>\<open>generateCharacterAvatar\<close> it makes (description and context) and the
  character it returns. \<^verbatim>\<open>url || undefined\<close> leaves the field out for \<^verbatim>\<open>null\<close> and
  for the empty string.
\<close>

definition has_description :: "character \<Rightarrow> bool" where
  "has_description char = (case visualDescription char of Some d \<Rightarrow> d \<noteq> [] | None \<Rightarrow> False)"

definition avatar_step ::
    "(string \<Rightarrow> nat \<Rightarrow> thrown + string option list) \<Rightarrow> string \<Rightarrow> character \<Rightarrow>
     (string \<times> string) list \<times> character" where
  "avatar_step image_service scene char =
     (case visualDescription char of
        Some d \<Rightarrow>
          if d \<noteq> []
          then ([(d, scene)],
                char\<lparr>avatarUrl :=
                  (case generateCharacterAvatar image_service d scene of
                     Some url \<Rightarrow> if url \<noteq> [] then Some url else None
                   | None \<Rightarrow> None)\<rparr>)
          else ([], char)
      | None \<Rightarrow> ([], char))"

text \<open>
  \<^verbatim>\<open>imagesPromise\<close> of \<^verbatim>\<open>handleSubmit\<close>: the avatar requests issued and the Scenario
  that is merged into the state.
\<close>

record media_stage =
  avatar_requests :: "(string \<times> string) list"
  scenarioWithImages :: scenario

definition imagesPromise ::
    "(string \<Rightarrow> nat \<Rightarrow> thrown + string option list) \<Rightarrow> bool \<Rightarrow> scenario \<Rightarrow> media_stage" where
  "imagesPromise image_service generateImages scenarioData =
     (if \<not> generateImages
      then \<lparr>avatar_requests = [], scenarioWithImages = scenarioData\<rparr>
      else
        let steps = map (avatar_step image_service (scene_context scenarioData)) (characters scenarioData)
        in \<lparr>avatar_requests = concat (map fst steps),
            scenarioWithImages = scenarioData\<lparr>characters := map snd steps\<rparr>\<rparr>)"

subsection \<open>Notions used in the properties\<close>

text \<open>
  \<open>put_prop\<close> is \<open>set_prop\<close> on an object or array, where the assignment cannot throw.
\<close>

fun put_prop :: "jsval \<Rightarrow> string \<Rightarrow> jsval \<Rightarrow> jsval" where
  "put_prop (JObj kvs) k x = JObj (AList.update k x kvs)"
| "put_prop (JArr xs ps) k x = JArr xs (AList.update k x ps)"
| "put_prop v k x = v"

text \<open>
  What the payload supplies: the elements of \<^verbatim>\<open>data.characters\<close> and of
  \<^verbatim>\<open>data.script\<close> (none when the property is missing or no array), and the named
  properties of the script array.
\<close>

definition supplied_characters :: "jsval \<Rightarrow> jsval list" where
  "supplied_characters data =
     (case get_prop data ''characters'' of Inr cs \<Rightarrow> elements cs | Inl e \<Rightarrow> [])"

definition supplied_script :: "jsval \<Rightarrow> jsval list" where
  "supplied_script data =
     (case get_prop data ''script'' of Inr sc \<Rightarrow> elements sc | Inl e \<Rightarrow> [])"

definition script_props :: "jsval \<Rightarrow> (string \<times> jsval) list" where
  "script_props data =
     (case get_prop data ''script'' of Inr sc \<Rightarrow> named_props sc | Inl e \<Rightarrow> [])"

text \<open>The two entries that \<^verbatim>\<open>slice(0, 2)\<close> keeps after the padding.\<close>

definition first_two :: "jsval list \<Rightarrow> jsval \<times> jsval" where
  "first_two cs =
     (if 2 \<le> length cs then (cs ! 0, cs ! 1)
      else if length cs = 1 then (cs ! 0, default_character 2)
      else (default_character 1, default_character 2))"

text \<open>
  \<^verbatim>\<open>String(c.name).trim()\<close>, the name the normalisation gives an entry before it makes
  the names differ, and \<^verbatim>\<open>String(line.speaker || "Unknown").trim()\<close>, the speaker
  string the normalisation counts and maps for a line: the raw speaker of the line.
\<close>

definition raw_name :: "jsval \<Rightarrow> exception + string" where
  "raw_name c =
     bindE (get_prop c ''name'') (\<lambda>raw. bindE (to_string raw) (\<lambda>s. Inr (trim s)))"

definition raw_speaker :: "jsval \<Rightarrow> exception + string" where
  "raw_speaker line =
     bindE (get_prop line ''speaker'') (\<lambda>sp.
     bindE (to_string (if truthy sp then sp else JStr ''Unknown'')) (\<lambda>s. Inr (trim s)))"

definition speaker_of :: "jsval \<Rightarrow> string" where
  "speaker_of line = (case raw_speaker line of Inr s \<Rightarrow> s | Inl e \<Rightarrow> [])"

text \<open>
  \<^verbatim>\<open>speakerCounts\<close> and \<^verbatim>\<open>scriptSpeakers\<close> as the normalisation computes them for a
  script, and the line that the last loop makes of a line.
\<close>

definition speaker_counts :: "jsval list \<Rightarrow> (string \<times> nat option) list" where
  "speaker_counts lines = foldl count_speaker [] (map speaker_of lines)"

definition script_speakers :: "jsval list \<Rightarrow> string list" where
  "script_speakers lines =
     array_sort (by_count (speaker_counts lines)) (object_keys (speaker_counts lines))"

definition relabel :: "(string \<times> string) list \<Rightarrow> string \<Rightarrow> jsval \<Rightarrow> jsval" where
  "relabel speakerMap name1 line =
     put_prop line ''speaker''
       (if truthy (lookup speakerMap (speaker_of line)) then lookup speakerMap (speaker_of line)
        else JStr name1)"

text \<open>
  The structure of a Scenario that the normalisation is to establish: an object with
  exactly two characters, each an object with a string \<^verbatim>\<open>name\<close>, a \<^verbatim>\<open>gender\<close> that
  is \<^verbatim>\<open>male\<close> or \<^verbatim>\<open>female\<close> and a string \<^verbatim>\<open>voice\<close>, and with a script whose lines
  are objects with a string \<^verbatim>\<open>speaker\<close>.
\<close>

definition is_string :: "exception + jsval \<Rightarrow> bool" where
  "is_string r = (case r of Inr (JStr s) \<Rightarrow> True | _ \<Rightarrow> False)"

definition valid_character :: "jsval \<Rightarrow> bool" where
  "valid_character c =
     (is_object c \<and> is_string (get_prop c ''name'') \<and>
      (get_prop c ''gender'' = Inr (JStr ''male'') \<or> get_prop c ''gender'' = Inr (JStr ''female'')) \<and>
      is_string (get_prop c ''voice''))"

definition valid_line :: "jsval \<Rightarrow> bool" where
  "valid_line line = (is_object line \<and> is_string (get_prop line ''speaker''))"

definition valid_scenario :: "jsval \<Rightarrow> bool" where
  "valid_scenario scenario =
     (is_object scenario \<and>
      (case get_prop scenario ''characters'' of
         Inr (JArr cs ps) \<Rightarrow> length cs = 2 \<and> list_all valid_character cs
       | _ \<Rightarrow> False) \<and>
      (case get_prop scenario ''script'' of
         Inr (JArr ls ps) \<Rightarrow> list_all valid_line ls
       | _ \<Rightarrow> False))"

text \<open>
  The payloads on which the normalisation meets no \<^verbatim>\<open>TypeError\<close> and no inherited
  member: the payload is an object; the entries that become the two characters are
  objects or arrays whose name \<^verbatim>\<open>String\<close> can convert; the script lines are objects
  or arrays whose speaker \<^verbatim>\<open>String\<close> can convert, and no raw speaker is the name of a
  member of \<^verbatim>\<open>Object.prototype\<close>.
\<close>

definition well_formed_character :: "jsval \<Rightarrow> bool" where
  "well_formed_character c =
     (is_object c \<and> (case raw_name c of Inr n \<Rightarrow> True | Inl e \<Rightarrow> False))"

definition well_formed_line :: "jsval \<Rightarrow> bool" where
  "well_formed_line line =
     (is_object line \<and>
      (case raw_speaker line of Inr s \<Rightarrow> s \<notin> set proto_keys | Inl e \<Rightarrow> False))"

definition well_formed_payload :: "jsval \<Rightarrow> bool" where
  "well_formed_payload data =
     (is_object data \<and>
      list_all well_formed_character (take 2 (supplied_characters data)) \<and>
      list_all well_formed_line (supplied_script data))"

text \<open>
  The names of the two characters of a Scenario, and the character that a raw speaker
  equal to one of the two names is rewritten to: the first when it fuzzy-matches the
  first name, else the second.
\<close>

definition final_names :: "jsval \<Rightarrow> (string \<times> string) option" where
  "final_names scenario =
     (case get_prop scenario ''characters'' of
        Inr (JArr [c1, c2] ps) \<Rightarrow>
          (case (get_prop c1 ''name'', get_prop c2 ''name'') of
             (Inr (JStr n1), Inr (JStr n2)) \<Rightarrow> Some (n1, n2)
           | _ \<Rightarrow> None)
      | _ \<Rightarrow> None)"

definition target :: "string \<Rightarrow> string \<Rightarrow> string \<Rightarrow> string" where
  "target n1 n2 s = (if fuzzy_match s n1 then n1 else n2)"

text \<open>
  The description that \<^verbatim>\<open>handleSubmit\<close> passes on for a character, and
  \<^verbatim>\<open>url || undefined\<close>.
\<close>

definition description_of :: "character \<Rightarrow> string" where
  "description_of char = (case visualDescription char of Some d \<Rightarrow> d | None \<Rightarrow> [])"

definition avatar_of :: "string option \<Rightarrow> string option" where
  "avatar_of url = (case url of Some u \<Rightarrow> if u \<noteq> [] then Some u else None | None \<Rightarrow> None)"

subsection \<open>Example inputs\<close>

text \<open>An operation that meets the quota limit twice and then answers, and one that is refused.\<close>

definition quota_error :: thrown where
  "quota_error =
     \<lparr>instance_of_Error = True, status = Some 429, code = None,
      message = Some ''Too Many Requests'', as_string = ''Error: Too Many Requests''\<rparr>"

definition exhausted_error :: thrown where
  "exhausted_error = new_Error ''RESOURCE_EXHAUSTED: try again later''"

definition busy_twice :: "nat \<Rightarrow> thrown + string" where
  "busy_twice n = (if n = 0 then Inl quota_error else if n = 1 then Inl exhausted_error else Inr ''ok'')"

definition refused :: "nat \<Rightarrow> thrown + string" where
  "refused n = Inl (new_Error ''API key not valid'')"

text \<open>A parser that accepts nothing.\<close>

definition JSON_parse_rejecting :: "string \<Rightarrow> jsval option" where
  "JSON_parse_rejecting s = None"

text \<open>Two outcomes of \<^verbatim>\<open>Math.random\<close>: always 0, and always one half.\<close>

definition rnd_zero :: "nat \<Rightarrow> real" where
  "rnd_zero i = 0"

definition rnd_half :: "nat \<Rightarrow> real" where
  "rnd_half i = 1 / 2"

text \<open>Payloads, written as \<^verbatim>\<open>JSON.parse\<close> returns them.\<close>

definition null_character :: jsval where
  "null_character = JObj [(''characters'', JArr [JNull] [])]"

definition one_unnamed_character :: jsval where
  "one_unnamed_character = JObj [(''characters'', JArr [JObj [(''name'', JStr [])]] [])]"

definition three_characters :: jsval where
  "three_characters =
     JObj [(''characters'',
            JArr [JObj [(''name'', JStr ''Ana'')], JObj [(''name'', JStr '' '')],
                  JObj [(''name'', JStr ''Luis'')]] [])]"

definition two_women_one_voice :: jsval where
  "two_women_one_voice =
     JObj [(''characters'',
            JArr [JObj [(''name'', JStr ''Ana''), (''gender'', JStr ''female''), (''voice'', JStr ''Kore'')],
                  JObj [(''name'', JStr ''Eva''), (''gender'', JStr ''female''), (''voice'', JStr ''Kore'')]] [])]"

definition market_scene :: jsval where
  "market_scene =
     JObj [(''context'', JStr ''A market at dawn.''),
           (''characters'',
            JArr [JObj [(''name'', JStr ''Ana Soares''), (''gender'', JStr ''female''), (''voice'', JStr ''Puck'')],
                  JObj [(''name'', JStr ''Luis''), (''gender'', JStr ''male'')]] []),
           (''script'',
            JArr [JObj [(''speaker'', JStr ''ANA''), (''text'', JStr ''Bom dia.'')],
                  JObj [(''speaker'', JStr '' Luis ''), (''text'', JStr ''Bom dia, Ana.'')],
                  JObj [(''text'', JStr ''Peixe fresco!'')]] [])]"

definition constructor_speaker :: jsval where
  "constructor_speaker =
     JObj [(''characters'', JArr [JObj [(''name'', JStr ''Ana'')], JObj [(''name'', JStr ''Luis'')]] []),
           (''script'', JArr [JObj [(''speaker'', JStr ''constructor''), (''text'', JStr ''Bom dia.'')]] [])]"

definition unnamed_pair :: jsval where
  "unnamed_pair =
     JObj [(''characters'', JArr [JObj [(''name'', JStr [])], JObj [(''name'', JStr '' '')]] []),
           (''script'', JArr [JObj [(''speaker'', JStr '' (1)'')]] [])]"

definition harbour_scene :: jsval where
  "harbour_scene =
     JObj [(''characters'',
            JArr [JObj [(''name'', JStr ''Ana''), (''gender'', JStr ''female''), (''voice'', JStr ''Kore'')],
                  JObj [(''name'', JStr ''Luis'')]] []),
           (''script'',
            JArr [JObj [(''speaker'', JStr ''Ana''), (''text'', JStr ''Bom dia.'')],
                  JObj [(''speaker'', JStr ''Luis''), (''text'', JStr ''Bom dia, Ana.'')],
                  JObj [(''speaker'', JStr ''Ana''), (''text'', JStr ''Peixe fresco!'')]] [])]"

definition harbour_scene_normalized :: jsval where
  "harbour_scene_normalized =
     JObj [(''characters'',
            JArr [JObj [(''name'', JStr ''Ana''), (''gender'', JStr ''female''), (''voice'', JStr ''Kore'')],
                  JObj [(''name'', JStr ''Luis''), (''gender'', JStr ''male''), (''voice'', JStr ''Charon'')]] []),
           (''script'',
            JArr [JObj [(''speaker'', JStr ''Ana''), (''text'', JStr ''Bom dia.'')],
                  JObj [(''speaker'', JStr ''Luis''), (''text'', JStr ''Bom dia, Ana.'')],
                  JObj [(''speaker'', JStr ''Ana''), (''text'', JStr ''Peixe fresco!'')]] [])]"

definition two_strangers :: jsval where
  "two_strangers =
     JObj [(''characters'', JArr [JObj [(''name'', JStr ''Ana'')], JObj [(''name'', JStr ''Luis'')]] []),
           (''script'',
            JArr [JObj [(''speaker'', JStr ''constructor''), (''text'', JStr ''Bom dia.'')],
                  JObj [(''speaker'', JStr ''Marco''), (''text'', JStr ''Bom dia.'')]] [])]"

text \<open>
  A Scenario, a speech service that can only speak English, one that returns no audio
  at all, and a decoder that returns the payload as it is.
\<close>

definition dawn_market :: scenario where
  "dawn_market =
     \<lparr>scene_context = ''A fish market at dawn.'', accentProfile = ''Lisbon'',
      characters =
        [\<lparr>name = ''Ana'', gender = ''female'', voice = ''Kore'',
          visualDescription = Some ''A fishwife in a woollen shawl.'', bio = None, avatarUrl = None\<rparr>,
         \<lparr>name = ''Luis'', gender = ''male'', voice = ''Puck'',
          visualDescription = None, bio = Some ''A sailor.'', avatarUrl = None\<rparr>],
      script =
        [\<lparr>speaker = ''Ana'', line_text = Some ''Bom dia.'', translation = Some ''Good morning.''\<rparr>,
         \<lparr>speaker = ''Luis'', line_text = Some ''*ri* Bom dia, Ana.'',
          translation = Some ''*laughs* Good morning, Ana.''\<rparr>]\<rparr>"

definition english_only :: "string \<Rightarrow> (string \<times> string) list \<Rightarrow> nat \<Rightarrow> thrown + speech_response" where
  "english_only dialogueText configs k =
     (if str_includes ''Good'' dialogueText
      then Inr \<lparr>parts = [None, Some ''UklGRg==''], finishReason = Some ''STOP''\<rparr>
      else Inr \<lparr>parts = [], finishReason = Some ''OTHER''\<rparr>)"

definition mute :: "string \<Rightarrow> (string \<times> string) list \<Rightarrow> nat \<Rightarrow> thrown + speech_response" where
  "mute dialogueText configs k = Inr \<lparr>parts = [], finishReason = Some ''OTHER''\<rparr>"

definition as_it_is :: "string \<Rightarrow> thrown + string" where
  "as_it_is base64Audio = Inr base64Audio"

text \<open>An image service that answers every prompt with the same picture.\<close>

definition painter :: "string \<Rightarrow> nat \<Rightarrow> thrown + string option list" where
  "painter prompt k = Inr [None, Some ''iVBORw0KGgo='']"

section \<open>Properties\<close>

subsection \<open>Retry executor\<close>

lemma withRetry_success:
  "operation n = Inr v \<Longrightarrow>
   withRetry operation retries delay n = \<lparr>settled = Inr v, delays = [], calls = Suc n\<rparr>"
  by (cases retries) simp_all

lemma withRetry_not_quota:
  "operation n = Inl e \<Longrightarrow> \<not> isQuotaError e \<Longrightarrow>
   withRetry operation retries delay n = \<lparr>settled = Inl e, delays = [], calls = Suc n\<rparr>"
  by (cases retries) simp_all

lemma withRetry_quota:
  "operation n = Inl e \<Longrightarrow> isQuotaError e \<Longrightarrow>
   withRetry operation (Suc retries) delay n =
     (withRetry operation retries (delay * 2) (Suc n))
       \<lparr>delays := delay # delays (withRetry operation retries (delay * 2) (Suc n))\<rparr>"
  by (simp add: Let_def)

text \<open>
  C6. With the default policy (3 retries, 2000 ms), an operation that fails twice with a
  quota-pattern error and then succeeds settles to the success value after exactly two
  retries, with the delays 2000 ms and 4000 ms; an operation whose failure is not a
  quota-pattern error settles to that failure unchanged, after one call and no delay.
\<close>

theorem withRetry_two_quota_failures_then_success:
  "(operation 0 = Inl e1 \<and> isQuotaError e1 \<and> operation 1 = Inl e2 \<and> isQuotaError e2 \<and>
    operation 2 = Inr v \<longrightarrow>
      withRetry operation MAX_RETRIES INITIAL_DELAY_MS 0 =
        \<lparr>settled = Inr v, delays = [2000, 4000], calls = 3\<rparr>) \<and>
   (failing 0 = Inl e \<and> \<not> isQuotaError e \<longrightarrow>
      withRetry failing MAX_RETRIES INITIAL_DELAY_MS 0 =
        \<lparr>settled = Inl e, delays = [], calls = 1\<rparr>)"
proof (intro conjI impI)
  assume a: "operation 0 = Inl e1 \<and> isQuotaError e1 \<and> operation 1 = Inl e2 \<and> isQuotaError e2 \<and>
    operation 2 = Inr v"
  then have ops: "operation 0 = Inl e1" "operation (Suc 0) = Inl e2"
      "operation (Suc (Suc 0)) = Inr v" and quota: "isQuotaError e1" "isQuotaError e2"
    by (simp_all add: numeral_2_eq_2)
  have "withRetry operation (Suc (Suc (Suc 0))) 2000 0 =
      \<lparr>settled = Inr v, delays = [2000, 4000], calls = Suc (Suc (Suc 0))\<rparr>"
    by (simp add: ops quota)
  then show "withRetry operation MAX_RETRIES INITIAL_DELAY_MS 0 =
      \<lparr>settled = Inr v, delays = [2000, 4000], calls = 3\<rparr>"
    by (simp add: MAX_RETRIES_def INITIAL_DELAY_MS_def numeral_3_eq_3)
next
  assume "failing 0 = Inl e \<and> \<not> isQuotaError e"
  then show "withRetry failing MAX_RETRIES INITIAL_DELAY_MS 0 =
      \<lparr>settled = Inl e, delays = [], calls = 1\<rparr>"
    by (simp add: withRetry_not_quota)
qed

lemma isQuotaError_examples:
  "isQuotaError quota_error" "isQuotaError exhausted_error"
  "\<not> isQuotaError (new_Error ''API key not valid'')"
  by (simp_all add: isQuotaError_def quota_error_def exhausted_error_def new_Error_def)

theorem withRetry_two_quota_failures_then_success_witness:
  "(busy_twice 0 = Inl quota_error \<and> isQuotaError quota_error \<and>
    busy_twice 1 = Inl exhausted_error \<and> isQuotaError exhausted_error \<and>
    busy_twice 2 = Inr ''ok'') \<and>
   withRetry busy_twice MAX_RETRIES INITIAL_DELAY_MS 0 =
     \<lparr>settled = Inr ''ok'', delays = [2000, 4000], calls = 3\<rparr> \<and>
   (refused 0 = Inl (new_Error ''API key not valid'') \<and>
    \<not> isQuotaError (new_Error ''API key not valid'')) \<and>
   withRetry refused MAX_RETRIES INITIAL_DELAY_MS 0 =
     \<lparr>settled = Inl (new_Error ''API key not valid''), delays = [], calls = 1\<rparr>"
  using withRetry_two_quota_failures_then_success
    [of busy_twice quota_error exhausted_error "''ok''" refused "new_Error ''API key not valid''"]
  by (simp add: busy_twice_def refused_def isQuotaError_examples)

subsection \<open>JSON extractor\<close>

lemma subseq_remove_matches: "subseq (remove_matches hit n s) s"
proof (induction hit n s rule: remove_matches.induct)
  case (1 hit n)
  then show ?case by simp
next
  case (2 hit n c cs)
  show ?case
  proof (cases "hit (c # cs)")
    case True
    have "subseq (drop (n - 1) cs) (c # cs)"
      by (metis list_emb_Cons sublist_drop sublist_imp_subseq)
    with 2 True show ?thesis
      by (auto intro: subseq_order.trans)
  next
    case False
    with 2 show ?thesis by simp
  qed
qed

lemma subseq_trim: "subseq (trim s) s"
proof -
  have "prefix (rev (dropWhile P (rev t))) t" for P and t :: string
  proof -
    have "rev (dropWhile P (rev t)) @ rev (takeWhile P (rev t)) =
        rev (takeWhile P (rev t) @ dropWhile P (rev t))"
      by (simp only: rev_append)
    also have "\<dots> = t" by simp
    finally have "t = rev (dropWhile P (rev t)) @ rev (takeWhile P (rev t))"
      by (rule sym)
    then show ?thesis
      unfolding prefix_def by (rule exI)
  qed
  then have "subseq (trim s) (dropWhile is_space s)"
    unfolding trim_def by (rule prefix_imp_subseq)
  moreover have "subseq (dropWhile is_space s) s"
    by (rule suffix_imp_subseq) (rule suffix_dropWhile)
  ultimately show ?thesis
    by (rule subseq_order.trans)
qed

lemma indexOf_from_found:
  "indexOf_from x s i \<noteq> -1 \<Longrightarrow> 0 \<le> i \<Longrightarrow>
   i \<le> indexOf_from x s i \<and> indexOf_from x s i < i + int (length s) \<and>
   s ! nat (indexOf_from x s i - i) = x"
proof (induction s arbitrary: i)
  case Nil
  then show ?case by simp
next
  case (Cons c cs)
  show ?case
  proof (cases "c = x")
    case True
    then show ?thesis by simp
  next
    case False
    with Cons.prems have n: "indexOf_from x cs (i + 1) \<noteq> -1" by simp
    from Cons.IH [OF n] Cons.prems(2)
    have ih: "i + 1 \<le> indexOf_from x cs (i + 1)"
      "indexOf_from x cs (i + 1) < i + 1 + int (length cs)"
      "cs ! nat (indexOf_from x cs (i + 1) - (i + 1)) = x" by auto
    have "nat (indexOf_from x cs (i + 1) - i) = Suc (nat (indexOf_from x cs (i + 1) - (i + 1)))"
      using ih(1) by linarith
    with False ih show ?thesis by simp
  qed
qed

lemma lastIndexOf_from_found:
  "lastIndexOf_from x s i found \<noteq> found \<Longrightarrow> 0 \<le> i \<Longrightarrow>
   i \<le> lastIndexOf_from x s i found \<and> lastIndexOf_from x s i found < i + int (length s) \<and>
   s ! nat (lastIndexOf_from x s i found - i) = x"
proof (induction s arbitrary: i found)
  case Nil
  then show ?case by simp
next
  case (Cons c cs)
  let ?f = "if c = x then i else found"
  show ?case
  proof (cases "lastIndexOf_from x cs (i + 1) ?f = ?f")
    case True
    with Cons.prems have "c = x" by (auto split: if_splits)
    with True show ?thesis by simp
  next
    case False
    from Cons.IH [OF False] Cons.prems(2)
    have ih: "i + 1 \<le> lastIndexOf_from x cs (i + 1) ?f"
      "lastIndexOf_from x cs (i + 1) ?f < i + 1 + int (length cs)"
      "cs ! nat (lastIndexOf_from x cs (i + 1) ?f - (i + 1)) = x" by auto
    have "nat (lastIndexOf_from x cs (i + 1) ?f - i) =
        Suc (nat (lastIndexOf_from x cs (i + 1) ?f - (i + 1)))"
      using ih(1) by linarith
    with ih show ?thesis by simp
  qed
qed

lemma brace_pair_Cons:
  "brace_pair (c # cs) = (if c = CHR ''{'' then CHR ''}'' \<in> set cs else brace_pair cs)"
  by (simp add: brace_pair_def)

lemma brace_pair_subseq: "brace_pair s \<longleftrightarrow> subseq ''{}'' s"
proof (induction s)
  case Nil
  then show ?case by (simp add: brace_pair_def)
next
  case (Cons c cs)
  show ?case
  proof (cases "c = CHR ''{''")
    case True
    then show ?thesis
      by (simp add: brace_pair_Cons subseq_singleton_left)
  next
    case False
    with Cons show ?thesis
      by (simp add: brace_pair_Cons)
  qed
qed

text \<open>The meaning of \<open>brace_pair\<close> in terms of positions.\<close>

lemma brace_pair_positions:
  "brace_pair s \<longleftrightarrow>
   (\<exists>i j. i < j \<and> j < length s \<and> s ! i = CHR ''{'' \<and> s ! j = CHR ''}'')"
  unfolding brace_pair_subseq
proof
  assume "\<exists>i j. i < j \<and> j < length s \<and> s ! i = CHR ''{'' \<and> s ! j = CHR ''}''"
  then obtain i j where ij: "i < j" "j < length s" "s ! i = CHR ''{''" "s ! j = CHR ''}''"
    by auto
  have split: "s = take i s @ CHR ''{'' # drop (Suc i) s"
    using ij id_take_nth_drop [of i s] by simp
  have "drop (Suc i) s ! (j - Suc i) = CHR ''}''"
    using ij by simp
  moreover have "drop (Suc i) s ! (j - Suc i) \<in> set (drop (Suc i) s)"
    by (rule nth_mem) (use ij in simp)
  ultimately have "CHR ''}'' \<in> set (drop (Suc i) s)"
    by simp
  then have "subseq ''}'' (drop (Suc i) s)"
    by (simp add: subseq_singleton_left)
  then have "subseq ''{}'' (take i s @ CHR ''{'' # drop (Suc i) s)"
    by (intro list_emb_append2 subseq_Cons2)
  with split show "subseq ''{}'' s" by simp
next
  assume "subseq ''{}'' s"
  then obtain a v r where s: "s = a @ v # r" "CHR ''{'' = v" and r: "subseq ''}'' r"
    by (blast dest: list_emb_ConsD)
  from r have "CHR ''}'' \<in> set r"
    by (simp add: subseq_singleton_left)
  then obtain k where k: "k < length r" "r ! k = CHR ''}''"
    by (auto simp: in_set_conv_nth)
  with s have "s ! length a = CHR ''{''" "s ! (length a + Suc k) = CHR ''}''"
    "length a + Suc k < length s"
    by (simp_all add: nth_append)
  then show "\<exists>i j. i < j \<and> j < length s \<and> s ! i = CHR ''{'' \<and> s ! j = CHR ''}''"
    by (intro exI [of _ "length a"] exI [of _ "length a + Suc k"]) simp
qed

lemma found_brace_pair:
  assumes "indexOf CHR ''{'' s \<noteq> -1" "lastIndexOf CHR ''}'' s \<noteq> -1"
    "lastIndexOf CHR ''}'' s > indexOf CHR ''{'' s"
  shows "brace_pair s"
proof -
  let ?i = "indexOf CHR ''{'' s" and ?j = "lastIndexOf CHR ''}'' s"
  have i: "0 \<le> ?i" "s ! nat ?i = CHR ''{''"
    using indexOf_from_found [of "CHR ''{''" s 0] assms(1) by (simp_all add: indexOf_def)
  have j: "?j < int (length s)" "s ! nat ?j = CHR ''}''"
    using lastIndexOf_from_found [of "CHR ''}''" s 0 "-1"] assms(2)
    by (simp_all add: lastIndexOf_def)
  have "nat ?i < nat ?j" "nat ?j < length s"
    using i(1) j(1) assms(3) by linarith+
  with i j show ?thesis
    unfolding brace_pair_positions by blast
qed

text \<open>
  C9, as the claim states it, fails at the empty string: \<^verbatim>\<open>if (!text) return null\<close>
  returns a value.
\<close>

theorem extractJSON_empty_text_returns_null:
  "\<not> brace_pair [] \<and> extractJSON JSON_parse_rejecting [] = Inr JNull"
  by (simp add: extractJSON_def brace_pair_def)

text \<open>
  C9, amended. For every non-empty text without a brace pair, \<^verbatim>\<open>extractJSON\<close> throws
  the error \<^verbatim>\<open>No JSON object found in response.\<close>, whatever \<^verbatim>\<open>JSON.parse\<close> does.
\<close>

theorem extractJSON_no_brace_pair:
  assumes "text \<noteq> []" "\<not> brace_pair text"
  shows "extractJSON JSON_parse text = Inl (new_Error ''No JSON object found in response.'')"
proof -
  let ?s = "remove_matches fence_at 3 (remove_matches fence_json_at 7 (trim text))"
  have "subseq (remove_matches fence_json_at 7 (trim text)) text"
    by (rule subseq_order.trans [OF subseq_remove_matches subseq_trim])
  then have "subseq ?s text"
    by (rule subseq_order.trans [OF subseq_remove_matches])
  with assms(2) have "\<not> brace_pair ?s"
    unfolding brace_pair_subseq using subseq_order.trans by blast
  then have c: "\<not> (indexOf CHR ''{'' ?s \<noteq> -1 \<and> lastIndexOf CHR ''}'' ?s \<noteq> -1 \<and>
      lastIndexOf CHR ''}'' ?s > indexOf CHR ''{'' ?s)"
    using found_brace_pair by blast
  show ?thesis
    unfolding extractJSON_def Let_def
    by (subst if_not_P, rule assms(1), subst if_not_P, rule c, rule refl)
qed

theorem extractJSON_no_brace_pair_witness:
  "''} I found nothing for {that place'' \<noteq> [] \<and>
   \<not> brace_pair ''} I found nothing for {that place'' \<and>
   extractJSON JSON_parse_rejecting ''} I found nothing for {that place'' =
     Inl (new_Error ''No JSON object found in response.'')"
  using extractJSON_no_brace_pair [of "''} I found nothing for {that place''" JSON_parse_rejecting]
  by (simp add: brace_pair_def)

subsection \<open>Scenario normaliser\<close>

lemma bindE_simps [simp]:
  "bindE (Inr x) f = f x" "bindE (Inl e) f = Inl e"
  by (simp_all add: bindE_def)

lemma bindE_Inr_iff: "bindE m f = Inr y \<longleftrightarrow> (\<exists>x. m = Inr x \<and> f x = Inr y)"
  by (cases m) simp_all

lemma bindE_InrE:
  assumes "bindE m f = Inr y"
  obtains x where "m = Inr x" "f x = Inr y"
  using assms by (auto simp: bindE_Inr_iff)

lemma get_prop_object: "is_object c \<Longrightarrow> \<exists>v. get_prop c k = Inr v"
  by (cases c) simp_all

lemma set_prop_object: "is_object c \<Longrightarrow> \<exists>c'. set_prop c k x = Inr c' \<and> is_object c'"
  by (cases c) simp_all

lemma set_prop_Inr:
  assumes "set_prop c k x = Inr c'"
  shows "is_object c" "is_object c'" "get_prop c' k = Inr x"
    "k' \<noteq> k \<Longrightarrow> get_prop c' k' = get_prop c k'"
  using assms by (cases c; auto simp: update_conv')+

lemma set_prop_same:
  "is_object c \<Longrightarrow> get_prop c k = Inr x \<Longrightarrow> x \<noteq> JUndefined \<Longrightarrow> set_prop c k x = Inr c"
  by (cases c) (auto simp: update_triv split: option.splits)

lemma sanitize_character_Inr:
  assumes "sanitize_character c = Inr (n, c')"
  shows "is_object c'" "get_prop c' ''name'' = Inr (JStr n)"
    "get_prop c' ''gender'' = Inr (JStr ''male'') \<or> get_prop c' ''gender'' = Inr (JStr ''female'')"
    "get_prop c' ''voice'' = get_prop c ''voice''"
    "\<exists>raw s. get_prop c ''name'' = Inr raw \<and> to_string raw = Inr s \<and> n = trim s"
proof -
  from assms obtain raw s c1 g c2 where
    raw: "get_prop c ''name'' = Inr raw" and s: "to_string raw = Inr s"
    and c1: "set_prop c ''name'' (JStr (trim s)) = Inr c1"
    and g: "get_prop c1 ''gender'' = Inr g"
    and c2: "(if g \<noteq> JStr ''male'' \<and> g \<noteq> JStr ''female''
              then set_prop c1 ''gender'' (JStr ''male'') else Inr c1) = Inr c2"
    and res: "n = trim s" "c' = c2"
    unfolding sanitize_character_def by (elim bindE_InrE) auto
  note p1 = set_prop_Inr [OF c1]
  show "\<exists>raw s. get_prop c ''name'' = Inr raw \<and> to_string raw = Inr s \<and> n = trim s"
    using raw s res by blast
  have all: "is_object c' \<and> get_prop c' ''name'' = Inr (JStr n) \<and>
      (get_prop c' ''gender'' = Inr (JStr ''male'') \<or> get_prop c' ''gender'' = Inr (JStr ''female'')) \<and>
      get_prop c' ''voice'' = get_prop c ''voice''"
  proof (cases "g \<noteq> JStr ''male'' \<and> g \<noteq> JStr ''female''")
    case True
    with c2 have c2': "set_prop c1 ''gender'' (JStr ''male'') = Inr c2" by simp
    note p2 = set_prop_Inr [OF c2']
    show ?thesis
      using p1 p2 res by simp
  next
    case False
    with c2 have "c2 = c1" by simp
    then show ?thesis
      using p1 res g False by auto
  qed
  then show "is_object c'" "get_prop c' ''name'' = Inr (JStr n)"
    "get_prop c' ''gender'' = Inr (JStr ''male'') \<or> get_prop c' ''gender'' = Inr (JStr ''female'')"
    "get_prop c' ''voice'' = get_prop c ''voice''"
    by blast+
qed

lemma random_element_in:
  assumes "xs \<noteq> []" "0 \<le> r" "r < 1"
  shows "\<exists>x \<in> set xs. random_element xs r = JStr x"
proof -
  let ?k = "\<lfloor>r * real (length xs)\<rfloor>"
  have "0 \<le> r * real (length xs)"
    using assms by simp
  then have lo: "0 \<le> ?k" by simp
  have "r * real (length xs) < real (length xs)"
    using assms by simp
  then have hi: "?k < int (length xs)"
    by (simp add: floor_less_iff)
  from lo hi have "nat ?k < length xs" by linarith
  then have "xs ! nat ?k \<in> set xs" by simp
  with lo hi show ?thesis
    unfolding random_element_def Let_def by auto
qed

lemma available_voice:
  "filter (\<lambda>x. JStr x \<noteq> taken) (voices_of g) \<noteq> []"
proof (cases "taken = JStr ''Puck'' \<or> taken = JStr ''Kore''")
  case True
  then show ?thesis
    by (auto simp: voices_of_def maleVoices_def femaleVoices_def)
next
  case False
  then show ?thesis
    by (auto simp: voices_of_def maleVoices_def femaleVoices_def)
qed

lemma getValidVoice_eq:
  assumes "get_prop char ''gender'' = Inr (JStr g)" "get_prop char ''voice'' = Inr v0"
  shows "getValidVoice rnd i char taken =
    (if v0 \<in> JStr ` set (voices_of g) \<and> v0 \<noteq> taken then Inr (v0, i)
     else Inr (random_element (filter (\<lambda>x. JStr x \<noteq> taken) (voices_of g)) (rnd i), Suc i))"
  using available_voice [of taken g]
  by (simp add: getValidVoice_def assms voices_of_def Let_def)

lemma getValidVoice_Inr:
  assumes "getValidVoice rnd i char taken = Inr (v, j)"
    and "get_prop char ''gender'' = Inr (JStr g)"
    and "0 \<le> rnd i" "rnd i < 1"
  shows "\<exists>x \<in> set (voices_of g). v = JStr x" "v \<noteq> taken"
proof -
  from assms(1,2) obtain v0 where v0: "get_prop char ''voice'' = Inr v0"
    unfolding getValidVoice_def by (elim bindE_InrE) auto
  note eq = getValidVoice_eq [OF assms(2) v0, of rnd i taken]
  have both: "(\<exists>x \<in> set (voices_of g). v = JStr x) \<and> v \<noteq> taken"
  proof (cases "v0 \<in> JStr ` set (voices_of g) \<and> v0 \<noteq> taken")
    case True
    with eq assms(1) show ?thesis by auto
  next
    case False
    let ?av = "filter (\<lambda>x. JStr x \<noteq> taken) (voices_of g)"
    have ne: "?av \<noteq> []" by (rule available_voice)
    from eq assms(1) False have "v = random_element ?av (rnd i)"
      by auto
    moreover obtain x where "x \<in> set ?av" "random_element ?av (rnd i) = JStr x"
      using random_element_in [OF ne assms(3,4)] by blast
    ultimately show ?thesis by auto
  qed
  then show "\<exists>x \<in> set (voices_of g). v = JStr x" "v \<noteq> taken" by blast+
qed

lemma pad_characters_eq:
  "pad_characters cs =
     (if 2 \<le> length cs then cs
      else if length cs = 1 then cs @ [default_character 2]
      else [default_character 1, default_character 2])"
proof -
  consider "2 \<le> length cs" | "length cs = 1" | "length cs = 0"
    by arith
  then show ?thesis
  proof cases
    case 1
    then show ?thesis by (subst pad_characters.simps) simp
  next
    case 2
    then have "pad_characters cs = pad_characters (cs @ [default_character 2])"
      by (subst pad_characters.simps) (simp add: numeral_2_eq_2)
    also have "\<dots> = cs @ [default_character 2]"
      using 2 by (subst pad_characters.simps) simp
    finally show ?thesis using 2 by simp
  next
    case 3
    then have 3: "cs = []" by simp
    have "pad_characters [] = pad_characters [default_character 1]"
      by (subst pad_characters.simps) simp
    also have "\<dots> = pad_characters [default_character 1, default_character 2]"
      by (subst pad_characters.simps) (simp add: numeral_2_eq_2)
    also have "\<dots> = [default_character 1, default_character 2]"
      by (subst pad_characters.simps) simp
    finally show ?thesis using 3 by simp
  qed
qed

lemma take_2_pad_characters:
  "take 2 (pad_characters cs) = [fst (first_two cs), snd (first_two cs)]"
proof -
  consider "2 \<le> length cs" | "length cs = 1" | "length cs = 0"
    by arith
  then show ?thesis
  proof cases
    case 1
    then obtain a b r where "cs = a # b # r"
      by (cases cs; cases "tl cs") auto
    then show ?thesis
      by (simp add: pad_characters_eq first_two_def numeral_2_eq_2)
  next
    case 2
    then obtain a where "cs = [a]"
      by (cases cs) auto
    then show ?thesis
      by (simp add: pad_characters_eq first_two_def numeral_2_eq_2)
  next
    case 3
    then have "cs = []" by simp
    then show ?thesis
      by (simp add: pad_characters_eq first_two_def numeral_2_eq_2)
  qed
qed

lemma distinct_names_Inr:
  assumes "distinct_names m0 a0 m1 a1 = Inr (n1, b0, n2, b1)"
    and "is_object a0" "is_object a1"
    and "get_prop a0 ''name'' = Inr (JStr m0)" "get_prop a1 ''name'' = Inr (JStr m1)"
  shows "n1 \<noteq> n2" "is_object b0" "is_object b1"
    "get_prop b0 ''name'' = Inr (JStr n1)" "get_prop b1 ''name'' = Inr (JStr n2)"
    "k \<noteq> ''name'' \<Longrightarrow> get_prop b0 k = get_prop a0 k"
    "k \<noteq> ''name'' \<Longrightarrow> get_prop b1 k = get_prop a1 k"
    "if m0 = m1 then n1 = m0 @ '' (1)'' \<and> n2 = m1 @ '' (2)'' else n1 = m0 \<and> n2 = m1"
proof -
  have all: "n1 \<noteq> n2 \<and> is_object b0 \<and> is_object b1 \<and>
    get_prop b0 ''name'' = Inr (JStr n1) \<and> get_prop b1 ''name'' = Inr (JStr n2) \<and>
    (k \<noteq> ''name'' \<longrightarrow> get_prop b0 k = get_prop a0 k) \<and>
    (k \<noteq> ''name'' \<longrightarrow> get_prop b1 k = get_prop a1 k) \<and>
    (if m0 = m1 then n1 = m0 @ '' (1)'' \<and> n2 = m1 @ '' (2)'' else n1 = m0 \<and> n2 = m1)"
  proof (cases "m0 = m1")
    case True
    with assms(1) obtain x0 x1 where
      x0: "set_prop a0 ''name'' (JStr (m0 @ '' (1)'')) = Inr x0" and
      x1: "set_prop a1 ''name'' (JStr (m1 @ '' (2)'')) = Inr x1" and
      res: "n1 = m0 @ '' (1)''" "b0 = x0" "n2 = m1 @ '' (2)''" "b1 = x1"
      unfolding distinct_names_def by (auto elim!: bindE_InrE)
    show ?thesis
      using set_prop_Inr [OF x0] set_prop_Inr [OF x1] res True by simp
  next
    case False
    with assms show ?thesis
      by (simp add: distinct_names_def)
  qed
  then show "n1 \<noteq> n2" "is_object b0" "is_object b1"
    "get_prop b0 ''name'' = Inr (JStr n1)" "get_prop b1 ''name'' = Inr (JStr n2)"
    "k \<noteq> ''name'' \<Longrightarrow> get_prop b0 k = get_prop a0 k"
    "k \<noteq> ''name'' \<Longrightarrow> get_prop b1 k = get_prop a1 k"
    "if m0 = m1 then n1 = m0 @ '' (1)'' \<and> n2 = m1 @ '' (2)'' else n1 = m0 \<and> n2 = m1"
    by blast+
qed

lemma sanitize_character_raw_name:
  "sanitize_character c = Inr (n, c') \<Longrightarrow> raw_name c = Inr n"
  using sanitize_character_Inr(5) [of c n c'] by (auto simp: raw_name_def)

lemma raw_name_default:
  "raw_name (default_character 1) = Inr ''Speaker 1''"
  "raw_name (default_character (Suc 0)) = Inr ''Speaker 1''"
  "raw_name (default_character 2) = Inr ''Speaker 2''"
  by (simp_all add: raw_name_def default_character_def trim_def is_space_def)

lemma first_two_raw_name:
  assumes "raw_name (fst (first_two cs)) = Inr []"
  shows "cs \<noteq> [] \<and> raw_name (cs ! 0) = Inr []"
  using assms by (auto simp: first_two_def raw_name_default split: if_splits)

lemma second_raw_name:
  assumes "raw_name (snd (first_two cs)) = Inr []"
  shows "2 \<le> length cs \<and> raw_name (cs ! 1) = Inr []"
  using assms by (auto simp: first_two_def raw_name_default split: if_splits)

lemma normalize_characters_steps:
  assumes "normalize_characters rnd cs = Inr (chars, n1, n2)"
  obtains m0 a0 m1 a1 b0 b1 v1 i d0 v2 j d1 where
    "sanitize_character (fst (first_two cs)) = Inr (m0, a0)"
    "sanitize_character (snd (first_two cs)) = Inr (m1, a1)"
    "distinct_names m0 a0 m1 a1 = Inr (n1, b0, n2, b1)"
    "getValidVoice rnd 0 b0 JUndefined = Inr (v1, i)"
    "set_prop b0 ''voice'' v1 = Inr d0"
    "getValidVoice rnd i b1 v1 = Inr (v2, j)"
    "set_prop b1 ''voice'' v2 = Inr d1"
    "chars = [d0, d1]"
  using assms unfolding normalize_characters_def take_2_pad_characters
  by (auto simp: bindE_Inr_iff)

lemma normalize_characters_Inr:
  assumes nc: "normalize_characters rnd cs = Inr (chars, n1, n2)"
  shows "\<exists>c1 c2 g1 g2.
    chars = [c1, c2] \<and> is_object c1 \<and> is_object c2 \<and>
    get_prop c1 ''name'' = Inr (JStr n1) \<and> get_prop c2 ''name'' = Inr (JStr n2) \<and> n1 \<noteq> n2 \<and>
    get_prop c1 ''gender'' = Inr (JStr g1) \<and> (g1 = ''male'' \<or> g1 = ''female'') \<and>
    get_prop c2 ''gender'' = Inr (JStr g2) \<and> (g2 = ''male'' \<or> g2 = ''female'') \<and>
    ((\<forall>i. 0 \<le> rnd i \<and> rnd i < 1) \<longrightarrow>
       (\<exists>v1 v2. get_prop c1 ''voice'' = Inr (JStr v1) \<and> v1 \<in> set (voices_of g1) \<and>
                get_prop c2 ''voice'' = Inr (JStr v2) \<and> v2 \<in> set (voices_of g2) \<and> v1 \<noteq> v2))"
    and "n1 = [] \<longrightarrow> cs \<noteq> [] \<and> raw_name (cs ! 0) = Inr []"
    and "n2 = [] \<longrightarrow> 2 \<le> length cs \<and> raw_name (cs ! 1) = Inr []"
proof -
  from nc obtain m0 a0 m1 a1 b0 b1 v1 i d0 v2 j d1 where
    s0: "sanitize_character (fst (first_two cs)) = Inr (m0, a0)" and
    s1: "sanitize_character (snd (first_two cs)) = Inr (m1, a1)" and
    dn: "distinct_names m0 a0 m1 a1 = Inr (n1, b0, n2, b1)" and
    g0: "getValidVoice rnd 0 b0 JUndefined = Inr (v1, i)" and
    d0: "set_prop b0 ''voice'' v1 = Inr d0" and
    g1: "getValidVoice rnd i b1 v1 = Inr (v2, j)" and
    d1: "set_prop b1 ''voice'' v2 = Inr d1" and
    chars: "chars = [d0, d1]"
    by (rule normalize_characters_steps)
  note a0 = sanitize_character_Inr [OF s0] and a1 = sanitize_character_Inr [OF s1]
  note b = distinct_names_Inr [OF dn a0(1) a1(1) a0(2) a1(2)]
  note p0 = set_prop_Inr [OF d0] and p1 = set_prop_Inr [OF d1]
  from a0(3) b(6) [of "''gender''"] obtain h1 where
    h1: "get_prop b0 ''gender'' = Inr (JStr h1)" "h1 = ''male'' \<or> h1 = ''female''"
    by auto
  from a1(3) b(7) [of "''gender''"] obtain h2 where
    h2: "get_prop b1 ''gender'' = Inr (JStr h2)" "h2 = ''male'' \<or> h2 = ''female''"
    by auto
  have voices: "\<exists>x1 x2. get_prop d0 ''voice'' = Inr (JStr x1) \<and> x1 \<in> set (voices_of h1) \<and>
      get_prop d1 ''voice'' = Inr (JStr x2) \<and> x2 \<in> set (voices_of h2) \<and> x1 \<noteq> x2"
    if rng: "\<forall>i. 0 \<le> rnd i \<and> rnd i < 1"
  proof -
    from rng have r0: "0 \<le> rnd 0" "rnd 0 < 1" and ri: "0 \<le> rnd i" "rnd i < 1"
      by simp_all
    from getValidVoice_Inr [OF g0 h1(1) r0] obtain x1 where
      x1: "x1 \<in> set (voices_of h1)" "v1 = JStr x1" by blast
    from getValidVoice_Inr [OF g1 h2(1) ri] obtain x2 where
      x2: "x2 \<in> set (voices_of h2)" "v2 = JStr x2" "v2 \<noteq> v1" by blast
    show ?thesis
      using x1 x2 p0(3) p1(3) by auto
  qed
  show "\<exists>c1 c2 g1 g2.
    chars = [c1, c2] \<and> is_object c1 \<and> is_object c2 \<and>
    get_prop c1 ''name'' = Inr (JStr n1) \<and> get_prop c2 ''name'' = Inr (JStr n2) \<and> n1 \<noteq> n2 \<and>
    get_prop c1 ''gender'' = Inr (JStr g1) \<and> (g1 = ''male'' \<or> g1 = ''female'') \<and>
    get_prop c2 ''gender'' = Inr (JStr g2) \<and> (g2 = ''male'' \<or> g2 = ''female'') \<and>
    ((\<forall>i. 0 \<le> rnd i \<and> rnd i < 1) \<longrightarrow>
       (\<exists>v1 v2. get_prop c1 ''voice'' = Inr (JStr v1) \<and> v1 \<in> set (voices_of g1) \<and>
                get_prop c2 ''voice'' = Inr (JStr v2) \<and> v2 \<in> set (voices_of g2) \<and> v1 \<noteq> v2))"
    apply (rule exI [of _ d0], rule exI [of _ d1], rule exI [of _ h1], rule exI [of _ h2])
    using chars p0 p1 b h1 h2 voices by simp
  have m0: "raw_name (fst (first_two cs)) = Inr m0" and m1: "raw_name (snd (first_two cs)) = Inr m1"
    using s0 s1 by (simp_all add: sanitize_character_raw_name)
  show "n1 = [] \<longrightarrow> cs \<noteq> [] \<and> raw_name (cs ! 0) = Inr []"
    using b(8) m0 first_two_raw_name [of cs] by (auto split: if_splits)
  show "n2 = [] \<longrightarrow> 2 \<le> length cs \<and> raw_name (cs ! 1) = Inr []"
    using b(8) m1 second_raw_name [of cs] by (auto split: if_splits)
qed

lemma normalize_steps:
  assumes "normalize rnd data = Inr out"
  obtains cs0 data1 cs chars n1 n2 data2 sc0 data3 sc new_script where
    "get_prop data ''characters'' = Inr cs0"
    "(if \<not> truthy cs0 \<or> \<not> is_array cs0
      then set_prop data ''characters'' (JArr [] []) else Inr data) = Inr data1"
    "get_prop data1 ''characters'' = Inr cs"
    "normalize_characters rnd (elements cs) = Inr (chars, n1, n2)"
    "set_prop data1 ''characters'' (JArr chars []) = Inr data2"
    "get_prop data2 ''script'' = Inr sc0"
    "(if \<not> truthy sc0 \<or> \<not> is_array sc0
      then set_prop data2 ''script'' (JArr [] []) else Inr data2) = Inr data3"
    "get_prop data3 ''script'' = Inr sc"
    "normalize_script n1 n2 (elements sc) = Inr new_script"
    "set_prop data3 ''script'' (JArr new_script (named_props sc)) = Inr out"
  using assms unfolding normalize_def
  by (auto simp: bindE_Inr_iff)

lemma elements_not_array: "\<not> is_array v \<Longrightarrow> elements v = []"
  by (cases v) simp_all

lemma normalize_characters_of:
  assumes "normalize rnd data = Inr out"
  shows "\<exists>chars n1 n2.
    normalize_characters rnd (supplied_characters data) = Inr (chars, n1, n2) \<and>
    get_prop out ''characters'' = Inr (JArr chars [])"
proof -
  from assms obtain cs0 data1 cs chars n1 n2 data2 sc0 data3 sc new_script where
    cs0: "get_prop data ''characters'' = Inr cs0" and
    data1: "(if \<not> truthy cs0 \<or> \<not> is_array cs0
      then set_prop data ''characters'' (JArr [] []) else Inr data) = Inr data1" and
    cs: "get_prop data1 ''characters'' = Inr cs" and
    nc: "normalize_characters rnd (elements cs) = Inr (chars, n1, n2)" and
    data2: "set_prop data1 ''characters'' (JArr chars []) = Inr data2" and
    sc0: "get_prop data2 ''script'' = Inr sc0" and
    data3: "(if \<not> truthy sc0 \<or> \<not> is_array sc0
      then set_prop data2 ''script'' (JArr [] []) else Inr data2) = Inr data3" and
    sc: "get_prop data3 ''script'' = Inr sc" and
    out: "set_prop data3 ''script'' (JArr new_script (named_props sc)) = Inr out"
    by (rule normalize_steps)
  have "elements cs = elements cs0"
  proof (cases "\<not> truthy cs0 \<or> \<not> is_array cs0")
    case True
    with data1 have "set_prop data ''characters'' (JArr [] []) = Inr data1" by simp
    from set_prop_Inr(3) [OF this] cs have "cs = JArr [] []" by simp
    moreover from True have "\<not> is_array cs0"
      by (cases cs0) auto
    ultimately show ?thesis by (simp add: elements_not_array)
  next
    case False
    with data1 cs cs0 show ?thesis by simp
  qed
  then have 1: "normalize_characters rnd (supplied_characters data) = Inr (chars, n1, n2)"
    using nc cs0 by (simp add: supplied_characters_def)
  have "get_prop data2 ''characters'' = Inr (JArr chars [])"
    using set_prop_Inr(3) [OF data2] .
  moreover have "get_prop data3 ''characters'' = get_prop data2 ''characters''"
  proof (cases "\<not> truthy sc0 \<or> \<not> is_array sc0")
    case True
    with data3 have "set_prop data2 ''script'' (JArr [] []) = Inr data3" by simp
    from set_prop_Inr(4) [OF this, of "''characters''"] show ?thesis by simp
  next
    case False
    with data3 show ?thesis by simp
  qed
  moreover have "get_prop out ''characters'' = get_prop data3 ''characters''"
    using set_prop_Inr(4) [OF out, of "''characters''"] by simp
  ultimately have "get_prop out ''characters'' = Inr (JArr chars [])" by simp
  with 1 show ?thesis by blast
qed

text \<open>
  C2, amended. Whenever the normalisation completes, for every payload and so for one
  whose \<^verbatim>\<open>characters\<close> is missing, no array, or an array of 0, 1, or 3 or more
  entries, the Scenario has exactly two characters whose names are strings that differ
  from each other. A name is empty only when the payload supplied the entry and its
  name, converted to a string and trimmed, is empty; a padded character is never
  unnamed.
\<close>

theorem normalize_two_distinct_names:
  assumes "normalize rnd data = Inr scenario"
  shows "\<exists>c1 c2 n1 n2.
    get_prop scenario ''characters'' = Inr (JArr [c1, c2] []) \<and>
    get_prop c1 ''name'' = Inr (JStr n1) \<and> get_prop c2 ''name'' = Inr (JStr n2) \<and>
    n1 \<noteq> n2 \<and>
    (n1 = [] \<longrightarrow> supplied_characters data \<noteq> [] \<and>
       raw_name (supplied_characters data ! 0) = Inr []) \<and>
    (n2 = [] \<longrightarrow> 2 \<le> length (supplied_characters data) \<and>
       raw_name (supplied_characters data ! 1) = Inr [])"
proof -
  from normalize_characters_of [OF assms] obtain chars n1 n2 where
    nc: "normalize_characters rnd (supplied_characters data) = Inr (chars, n1, n2)" and
    out: "get_prop scenario ''characters'' = Inr (JArr chars [])"
    by blast
  from normalize_characters_Inr(1) [OF nc] obtain c1 c2 where
    "chars = [c1, c2]" "get_prop c1 ''name'' = Inr (JStr n1)"
    "get_prop c2 ''name'' = Inr (JStr n2)" "n1 \<noteq> n2"
    by blast
  with out normalize_characters_Inr(2,3) [OF nc] show ?thesis
    by blast
qed

lemma voices_of_sets:
  "x \<in> set (voices_of g) \<Longrightarrow> g = ''male'' \<or> g = ''female'' \<Longrightarrow>
   g = ''male'' \<and> x \<in> {''Puck'', ''Fenrir'', ''Charon'', ''Zephyr''} \<or>
   g = ''female'' \<and> x \<in> {''Kore'', ''Aoede''}"
  by (auto simp: voices_of_def maleVoices_def femaleVoices_def)

text \<open>
  C3. For every payload and every outcome of \<^verbatim>\<open>Math.random\<close>, after the
  normalisation each of the two characters has a voice from the set of its gender
  (male: Puck, Fenrir, Charon, Zephyr; female: Kore, Aoede), and two characters of the
  same gender have different voices.
\<close>

theorem normalize_voices:
  assumes "normalize rnd data = Inr scenario" and "\<forall>i. 0 \<le> rnd i \<and> rnd i < 1"
  shows "\<exists>c1 c2 g1 g2 v1 v2.
    get_prop scenario ''characters'' = Inr (JArr [c1, c2] []) \<and>
    get_prop c1 ''gender'' = Inr (JStr g1) \<and> get_prop c1 ''voice'' = Inr (JStr v1) \<and>
    get_prop c2 ''gender'' = Inr (JStr g2) \<and> get_prop c2 ''voice'' = Inr (JStr v2) \<and>
    (g1 = ''male'' \<and> v1 \<in> {''Puck'', ''Fenrir'', ''Charon'', ''Zephyr''} \<or>
     g1 = ''female'' \<and> v1 \<in> {''Kore'', ''Aoede''}) \<and>
    (g2 = ''male'' \<and> v2 \<in> {''Puck'', ''Fenrir'', ''Charon'', ''Zephyr''} \<or>
     g2 = ''female'' \<and> v2 \<in> {''Kore'', ''Aoede''}) \<and>
    (g1 = g2 \<longrightarrow> v1 \<noteq> v2)"
proof -
  from normalize_characters_of [OF assms(1)] obtain chars n1 n2 where
    nc: "normalize_characters rnd (supplied_characters data) = Inr (chars, n1, n2)" and
    out: "get_prop scenario ''characters'' = Inr (JArr chars [])"
    by blast
  from normalize_characters_Inr(1) [OF nc] assms(2) obtain c1 c2 g1 g2 v1 v2 where
    c: "chars = [c1, c2]" and
    g: "get_prop c1 ''gender'' = Inr (JStr g1)" "g1 = ''male'' \<or> g1 = ''female''"
      "get_prop c2 ''gender'' = Inr (JStr g2)" "g2 = ''male'' \<or> g2 = ''female''" and
    v: "get_prop c1 ''voice'' = Inr (JStr v1)" "v1 \<in> set (voices_of g1)"
      "get_prop c2 ''voice'' = Inr (JStr v2)" "v2 \<in> set (voices_of g2)" "v1 \<noteq> v2"
    by blast
  note s1 = voices_of_sets [OF v(2) g(2)] and s2 = voices_of_sets [OF v(4) g(4)]
  show ?thesis
    apply (rule exI [of _ c1], rule exI [of _ c2], rule exI [of _ g1], rule exI [of _ g2],
        rule exI [of _ v1], rule exI [of _ v2])
    using out c g(1,3) v(1,3,5) s1 s2 by simp
qed

lemma set_prop_put: "is_object c \<Longrightarrow> set_prop c k x = Inr (put_prop c k x)"
  by (cases c) simp_all

lemma set_prop_Inr_put: "set_prop c k x = Inr c' \<Longrightarrow> c' = put_prop c k x"
  by (cases c) auto

lemma put_prop_object [simp]: "is_object (put_prop c k x) = is_object c"
  by (cases c) simp_all

lemma put_prop_twice [simp]: "put_prop (put_prop c k x) k y = put_prop c k y"
  by (cases c) simp_all

lemma get_put_prop:
  "is_object c \<Longrightarrow> get_prop (put_prop c k x) k' = (if k' = k then Inr x else get_prop c k')"
  by (cases c) (auto simp: update_conv')

lemma count_line_eq:
  assumes "is_object line" "raw_speaker line = Inr s"
  shows "count_line line counts =
    Inr (put_prop line ''speaker'' (JStr s), count_speaker counts s)"
proof -
  from assms(1) obtain sp where sp: "get_prop line ''speaker'' = Inr sp"
    using get_prop_object by blast
  show ?thesis
  proof (cases "truthy sp")
    case True
    with assms sp obtain t where "to_string sp = Inr t" "s = trim t"
      by (auto simp: raw_speaker_def bindE_Inr_iff)
    with True sp assms(1) show ?thesis
      by (simp add: count_line_def set_prop_put)
  next
    case False
    with assms sp have "s = trim ''Unknown''"
      by (auto simp: raw_speaker_def bindE_Inr_iff)
    with False sp assms(1) show ?thesis
      by (simp add: count_line_def set_prop_put get_put_prop)
  qed
qed

lemma count_line_Inr:
  assumes "count_line line counts = Inr r"
  shows "is_object line \<and> (\<exists>s. raw_speaker line = Inr s)"
proof -
  from assms obtain sp line1 sp1 t line2 where
    sp: "get_prop line ''speaker'' = Inr sp" and
    l1: "(if \<not> truthy sp then set_prop line ''speaker'' (JStr ''Unknown'') else Inr line) = Inr line1" and
    sp1: "get_prop line1 ''speaker'' = Inr sp1" and
    t: "to_string sp1 = Inr t" and
    l2: "set_prop line1 ''speaker'' (JStr (trim t)) = Inr line2"
    unfolding count_line_def by (auto simp: bindE_Inr_iff)
  have obj: "is_object line"
    using l1 l2 set_prop_Inr(1) by (auto split: if_splits)
  have "sp1 = (if truthy sp then sp else JStr ''Unknown'')"
    using l1 sp sp1 set_prop_Inr(3) by (auto split: if_splits)
  with sp t have "raw_speaker line = Inr (trim t)"
    by (simp add: raw_speaker_def)
  with obj show ?thesis by blast
qed

lemma speaker_of_eq: "raw_speaker line = Inr s \<Longrightarrow> speaker_of line = s"
  by (simp add: speaker_of_def)

lemma count_lines_eq:
  assumes "\<forall>l \<in> set lines. is_object l \<and> (\<exists>s. raw_speaker l = Inr s)"
  shows "count_lines lines counts =
    Inr (map (\<lambda>l. put_prop l ''speaker'' (JStr (speaker_of l))) lines,
         foldl count_speaker counts (map speaker_of lines))"
  using assms
proof (induction lines arbitrary: counts)
  case Nil
  then show ?case by simp
next
  case (Cons l ls)
  then obtain s where s: "raw_speaker l = Inr s" and obj: "is_object l"
    by auto
  from Cons have rest: "\<forall>l \<in> set ls. is_object l \<and> (\<exists>s. raw_speaker l = Inr s)"
    by simp
  show ?case
    by (simp add: count_line_eq [OF obj s] Cons.IH [OF rest] speaker_of_eq [OF s])
qed

lemma count_lines_Inr:
  assumes "count_lines lines counts = Inr r"
  shows "\<forall>l \<in> set lines. is_object l \<and> (\<exists>s. raw_speaker l = Inr s)"
  using assms
proof (induction lines arbitrary: counts r)
  case Nil
  then show ?case by simp
next
  case (Cons l ls)
  from Cons.prems obtain l' c' r' where
    1: "count_line l counts = Inr (l', c')" and 2: "count_lines ls c' = Inr r'"
    by (auto simp: bindE_Inr_iff)
  from count_line_Inr [OF 1] Cons.IH [OF 2] show ?case by simp
qed

lemma apply_mapping_eq:
  assumes "is_object l"
  shows "apply_mapping m n1 (put_prop l ''speaker'' (JStr (speaker_of l))) = Inr (relabel m n1 l)"
  using assms
  by (simp add: apply_mapping_def relabel_def get_put_prop set_prop_put)

lemma for_each_map:
  assumes "\<forall>x \<in> set xs. f (g x) = Inr (h x)"
  shows "for_each f (map g xs) = Inr (map h xs)"
  using assms by (induction xs) simp_all

lemma normalize_script_eq:
  assumes "\<forall>l \<in> set lines. is_object l \<and> (\<exists>s. raw_speaker l = Inr s)"
  shows "normalize_script n1 n2 lines =
    Inr (map (relabel (build_speakerMap n1 n2 (script_speakers lines)) n1) lines)"
proof -
  have "for_each (apply_mapping (build_speakerMap n1 n2 (script_speakers lines)) n1)
      (map (\<lambda>l. put_prop l ''speaker'' (JStr (speaker_of l))) lines) =
    Inr (map (relabel (build_speakerMap n1 n2 (script_speakers lines)) n1) lines)"
    by (rule for_each_map) (use assms apply_mapping_eq in blast)
  then show ?thesis
    by (simp add: normalize_script_def count_lines_eq [OF assms] script_speakers_def
        speaker_counts_def Let_def)
qed

lemma normalize_script_Inr:
  assumes "normalize_script n1 n2 lines = Inr lines'"
  shows "\<forall>l \<in> set lines. is_object l \<and> (\<exists>s. raw_speaker l = Inr s)"
proof -
  from assms obtain r where "count_lines lines [] = Inr r"
    unfolding normalize_script_def by (auto simp: bindE_Inr_iff)
  then show ?thesis by (rule count_lines_Inr)
qed

lemma named_props_not_array: "\<not> is_array v \<Longrightarrow> named_props v = []"
  by (cases v) simp_all

lemma is_array_truthy: "is_array v \<Longrightarrow> truthy v"
  by (cases v) simp_all

lemma put_prop_same:
  "is_object c \<Longrightarrow> get_prop c k = Inr x \<Longrightarrow> x \<noteq> JUndefined \<Longrightarrow> put_prop c k x = c"
  by (cases c) (auto simp: update_triv split: option.splits)

lemma coerce_array:
  assumes "is_object data" "get_prop data k = Inr v"
  shows "\<exists>data1 v1.
    (if \<not> truthy v \<or> \<not> is_array v then set_prop data k (JArr [] []) else Inr data) = Inr data1 \<and>
    is_object data1 \<and> get_prop data1 k = Inr v1 \<and> is_array v1 \<and>
    elements v1 = elements v \<and> named_props v1 = named_props v \<and>
    (\<forall>x. put_prop data1 k x = put_prop data k x) \<and>
    (\<forall>k'. k' \<noteq> k \<longrightarrow> get_prop data1 k' = get_prop data k')"
proof (cases "is_array v")
  case True
  with assms show ?thesis
    by (simp add: is_array_truthy)
next
  case False
  with assms show ?thesis
    by (simp add: set_prop_put get_put_prop elements_not_array named_props_not_array)
qed

lemma normalize_eq:
  assumes obj: "is_object data"
    and nc: "normalize_characters rnd (supplied_characters data) = Inr (chars, n1, n2)"
    and ns: "normalize_script n1 n2 (supplied_script data) = Inr new_script"
  shows "normalize rnd data =
    Inr (put_prop (put_prop data ''characters'' (JArr chars [])) ''script''
          (JArr new_script (script_props data)))"
proof -
  from obj obtain cs0 where cs0: "get_prop data ''characters'' = Inr cs0"
    using get_prop_object by blast
  from coerce_array [OF obj cs0] obtain data1 cs where
    data1: "(if \<not> truthy cs0 \<or> \<not> is_array cs0
      then set_prop data ''characters'' (JArr [] []) else Inr data) = Inr data1" and
    obj1: "is_object data1" and cs: "get_prop data1 ''characters'' = Inr cs" and
    el: "elements cs = elements cs0" and
    put1: "\<forall>x. put_prop data1 ''characters'' x = put_prop data ''characters'' x" and
    other1: "\<forall>k'. k' \<noteq> ''characters'' \<longrightarrow> get_prop data1 k' = get_prop data k'"
    by blast
  define data2 where "data2 = put_prop data ''characters'' (JArr chars [])"
  have set2: "set_prop data1 ''characters'' (JArr chars []) = Inr data2"
    using obj1 put1 by (simp add: set_prop_put data2_def)
  have obj2: "is_object data2"
    using obj by (simp add: data2_def)
  from obj obtain sc0 where sc0: "get_prop data ''script'' = Inr sc0"
    using get_prop_object by blast
  have sc2: "get_prop data2 ''script'' = Inr sc0"
    using obj sc0 by (simp add: data2_def get_put_prop)
  from coerce_array [OF obj2 sc2] obtain data3 sc where
    data3: "(if \<not> truthy sc0 \<or> \<not> is_array sc0
      then set_prop data2 ''script'' (JArr [] []) else Inr data2) = Inr data3" and
    obj3: "is_object data3" and sc: "get_prop data3 ''script'' = Inr sc" and
    els: "elements sc = elements sc0" and ps: "named_props sc = named_props sc0" and
    put3: "\<forall>x. put_prop data3 ''script'' x = put_prop data2 ''script'' x"
    by blast
  have nc': "normalize_characters rnd (elements cs) = Inr (chars, n1, n2)"
    using nc cs0 el by (simp add: supplied_characters_def)
  have ns': "normalize_script n1 n2 (elements sc) = Inr new_script"
    using ns sc0 els by (simp add: supplied_script_def)
  have out: "set_prop data3 ''script'' (JArr new_script (named_props sc)) =
      Inr (put_prop data2 ''script'' (JArr new_script (script_props data)))"
    using obj3 put3 ps sc0 by (simp add: set_prop_put script_props_def)
  have "normalize rnd data = Inr (put_prop data2 ''script'' (JArr new_script (script_props data)))"
    unfolding normalize_def
    by (simp only: cs0 bindE_simps data1 cs nc' prod.case set2 sc2 data3 sc ns' out)
  then show ?thesis
    by (simp only: data2_def)
qed

lemma normalize_Inr:
  assumes "normalize rnd data = Inr out"
  shows "is_object data \<and> (\<exists>chars n1 n2 new_script.
    normalize_characters rnd (supplied_characters data) = Inr (chars, n1, n2) \<and>
    normalize_script n1 n2 (supplied_script data) = Inr new_script \<and>
    out = put_prop (put_prop data ''characters'' (JArr chars [])) ''script''
            (JArr new_script (script_props data)))"
proof -
  from assms obtain cs0 data1 cs chars n1 n2 data2 sc0 data3 sc new_script where
    cs0: "get_prop data ''characters'' = Inr cs0" and
    data1: "(if \<not> truthy cs0 \<or> \<not> is_array cs0
      then set_prop data ''characters'' (JArr [] []) else Inr data) = Inr data1" and
    cs: "get_prop data1 ''characters'' = Inr cs" and
    nc: "normalize_characters rnd (elements cs) = Inr (chars, n1, n2)" and
    data2: "set_prop data1 ''characters'' (JArr chars []) = Inr data2" and
    sc0: "get_prop data2 ''script'' = Inr sc0" and
    data3: "(if \<not> truthy sc0 \<or> \<not> is_array sc0
      then set_prop data2 ''script'' (JArr [] []) else Inr data2) = Inr data3" and
    sc: "get_prop data3 ''script'' = Inr sc" and
    ns: "normalize_script n1 n2 (elements sc) = Inr new_script" and
    out: "set_prop data3 ''script'' (JArr new_script (named_props sc)) = Inr out"
    by (rule normalize_steps)
  have obj1: "is_object data1"
    using set_prop_Inr(1) [OF data2] .
  have obj: "is_object data"
    using data1 obj1 set_prop_Inr(1) by (auto split: if_splits)
  from coerce_array [OF obj cs0] data1 cs have el: "elements cs = elements cs0"
    by auto
  from coerce_array [OF obj cs0] data1 have
    other1: "get_prop data1 ''script'' = get_prop data ''script''"
    by auto
  have "get_prop data2 ''script'' = get_prop data1 ''script''"
    using set_prop_Inr(4) [OF data2, of "''script''"] by simp
  with other1 sc0 have sc0': "get_prop data ''script'' = Inr sc0" by simp
  have obj2: "is_object data2"
    using set_prop_Inr(2) [OF data2] .
  from coerce_array [OF obj2 sc0] data3 sc have els: "elements sc = elements sc0"
    by auto
  have nc': "normalize_characters rnd (supplied_characters data) = Inr (chars, n1, n2)"
    using nc cs0 el by (simp add: supplied_characters_def)
  have ns': "normalize_script n1 n2 (supplied_script data) = Inr new_script"
    using ns sc0' els by (simp add: supplied_script_def)
  from normalize_eq [OF obj nc' ns'] assms
  have "out = put_prop (put_prop data ''characters'' (JArr chars [])) ''script''
            (JArr new_script (script_props data))"
    by simp
  with obj nc' ns' show ?thesis by blast
qed

lemma update_values: "snd ` set (AList.update k v m) \<subseteq> insert v (snd ` set m)"
  by (induction m) auto

lemma assign_values: "snd ` set (assign m k v) \<subseteq> insert v (snd ` set m)"
  using update_values [of k v m] by (auto simp: assign_def)

lemma assign_values_in:
  "snd ` set m \<subseteq> A \<Longrightarrow> v \<in> A \<Longrightarrow> snd ` set (assign m k v) \<subseteq> A"
  using assign_values [of m k v] by blast

lemma match_speakers_values:
  "snd ` set m \<subseteq> {n1, n2} \<Longrightarrow> snd ` set (foldl (match_speaker n1 n2) m ks) \<subseteq> {n1, n2}"
proof (induction ks arbitrary: m)
  case Nil
  then show ?case by simp
next
  case (Cons k ks)
  have "snd ` set (match_speaker n1 n2 m k) \<subseteq> {n1, n2}"
    unfolding match_speaker_def using Cons.prems by (simp add: assign_values_in)
  then show ?case
    using Cons.IH by simp
qed

lemma assign_rest_values:
  "snd ` set m \<subseteq> {n1, n2} \<Longrightarrow> snd ` set (foldl (\<lambda>m s. assign m s n1) m ks) \<subseteq> {n1, n2}"
proof (induction ks arbitrary: m)
  case Nil
  then show ?case by simp
next
  case (Cons k ks)
  have "snd ` set (assign m k n1) \<subseteq> {n1, n2}"
    using Cons.prems by (simp add: assign_values_in)
  then show ?case
    using Cons.IH by simp
qed

lemma build_speakerMap_values: "snd ` set (build_speakerMap n1 n2 ks) \<subseteq> {n1, n2}"
proof -
  define m0 where "m0 = foldl (match_speaker n1 n2) [] ks"
  define unmapped where "unmapped = filter (\<lambda>s. \<not> truthy (lookup m0 s)) ks"
  define m1 where "m1 = (if \<not> isCharUsed m0 n1 \<and> has_speaker_at unmapped 0
     then assign m0 (unmapped ! 0) n1 else m0)"
  define i1 :: nat where "i1 = (if \<not> isCharUsed m0 n1 \<and> has_speaker_at unmapped 0 then 1 else 0)"
  define m2 where "m2 = (if \<not> isCharUsed m1 n2 \<and> has_speaker_at unmapped i1
     then assign m1 (unmapped ! i1) n2 else m1)"
  define i2 where "i2 = (if \<not> isCharUsed m1 n2 \<and> has_speaker_at unmapped i1 then i1 + 1 else i1)"
  have eq: "build_speakerMap n1 n2 ks = foldl (\<lambda>m s. assign m s n1) m2 (drop i2 unmapped)"
    unfolding build_speakerMap_def Let_def m0_def [symmetric] unmapped_def [symmetric]
    by (simp add: m1_def i1_def m2_def i2_def)
  have "snd ` set m0 \<subseteq> {n1, n2}"
    unfolding m0_def by (rule match_speakers_values) simp
  then have "snd ` set m1 \<subseteq> {n1, n2}"
    unfolding m1_def by (simp add: assign_values_in)
  then have "snd ` set m2 \<subseteq> {n1, n2}"
    unfolding m2_def by (simp add: assign_values_in)
  then show ?thesis
    unfolding eq by (rule assign_rest_values)
qed

lemma lookup_cases:
  assumes "s \<notin> set proto_keys"
  shows "lookup m s = JUndefined \<or> (\<exists>v \<in> snd ` set m. lookup m s = JStr v)"
proof (cases "map_of m s")
  case None
  with assms show ?thesis by (simp add: lookup_def)
next
  case (Some v)
  then have "(s, v) \<in> set m" by (rule map_of_SomeD)
  then have "v \<in> snd ` set m" by force
  with Some show ?thesis by (simp add: lookup_def)
qed

lemma relabel_speaker:
  assumes "is_object l" "speaker_of l \<notin> set proto_keys" "snd ` set m \<subseteq> {n1, n2}"
  shows "is_object (relabel m n1 l)"
    "get_prop (relabel m n1 l) ''speaker'' = Inr (JStr n1) \<or>
     get_prop (relabel m n1 l) ''speaker'' = Inr (JStr n2)"
proof -
  show "is_object (relabel m n1 l)"
    using assms(1) by (simp add: relabel_def)
  from lookup_cases [OF assms(2), of m] assms(3)
  have "lookup m (speaker_of l) = JUndefined \<or> lookup m (speaker_of l) = JStr n1 \<or>
    lookup m (speaker_of l) = JStr n2"
    by auto
  then show "get_prop (relabel m n1 l) ''speaker'' = Inr (JStr n1) \<or>
     get_prop (relabel m n1 l) ''speaker'' = Inr (JStr n2)"
    using assms(1) by (auto simp: relabel_def get_put_prop)
qed

lemma well_formed_default:
  "well_formed_character (default_character 1)" "well_formed_character (default_character (Suc 0))"
  "well_formed_character (default_character 2)"
  by (simp_all add: well_formed_character_def raw_name_default) (simp_all add: default_character_def)

lemma well_formed_lineD:
  assumes "well_formed_line l"
  shows "is_object l" "\<exists>s. raw_speaker l = Inr s" "speaker_of l \<notin> set proto_keys"
  using assms by (cases "raw_speaker l"; simp add: well_formed_line_def speaker_of_def)+

lemma well_formed_first_two:
  assumes "list_all well_formed_character (take 2 cs)"
  shows "well_formed_character (fst (first_two cs))" "well_formed_character (snd (first_two cs))"
proof -
  consider "2 \<le> length cs" | "length cs = 1" | "length cs = 0"
    by arith
  then have "well_formed_character (fst (first_two cs)) \<and> well_formed_character (snd (first_two cs))"
  proof cases
    case 1
    then obtain a b r where "cs = a # b # r"
      by (cases cs; cases "tl cs") auto
    with assms show ?thesis
      by (simp add: first_two_def numeral_2_eq_2)
  next
    case 2
    then obtain a where "cs = [a]"
      by (cases cs) auto
    with assms show ?thesis
      by (simp add: first_two_def well_formed_default)
  next
    case 3
    then show ?thesis
      by (simp add: first_two_def well_formed_default)
  qed
  then show "well_formed_character (fst (first_two cs))" "well_formed_character (snd (first_two cs))"
    by simp_all
qed

lemma sanitize_character_total:
  assumes "well_formed_character c"
  shows "\<exists>n c'. sanitize_character c = Inr (n, c')"
proof -
  from assms have obj: "is_object c" and "\<exists>n. raw_name c = Inr n"
    by (auto simp: well_formed_character_def split: sum.splits)
  then obtain raw s where raw: "get_prop c ''name'' = Inr raw" "to_string raw = Inr s"
    by (auto simp: raw_name_def bindE_Inr_iff)
  define c1 where "c1 = put_prop c ''name'' (JStr (trim s))"
  have c1: "set_prop c ''name'' (JStr (trim s)) = Inr c1" "is_object c1"
    using obj by (simp_all add: c1_def set_prop_put)
  from c1(2) obtain g where g: "get_prop c1 ''gender'' = Inr g"
    using get_prop_object by blast
  define c2 where "c2 = (if g \<noteq> JStr ''male'' \<and> g \<noteq> JStr ''female''
      then put_prop c1 ''gender'' (JStr ''male'') else c1)"
  have "(if g \<noteq> JStr ''male'' \<and> g \<noteq> JStr ''female''
      then set_prop c1 ''gender'' (JStr ''male'') else Inr c1) = Inr c2"
    using c1(2) by (simp add: c2_def set_prop_put)
  then have "sanitize_character c = Inr (trim s, c2)"
    unfolding sanitize_character_def
    by (simp only: raw bindE_simps c1 g)
  then show ?thesis by blast
qed

lemma getValidVoice_total:
  assumes "is_object c"
  shows "\<exists>v j. getValidVoice rnd i c taken = Inr (v, j)"
proof -
  from assms obtain g v0 where "get_prop c ''gender'' = Inr g" "get_prop c ''voice'' = Inr v0"
    using get_prop_object by blast
  then show ?thesis
    by (simp add: getValidVoice_def Let_def)
qed

lemma normalize_characters_total:
  assumes "list_all well_formed_character (take 2 cs)"
  shows "\<exists>chars n1 n2. normalize_characters rnd cs = Inr (chars, n1, n2)"
proof -
  note wf = well_formed_first_two [OF assms]
  from sanitize_character_total [OF wf(1)] obtain m0 a0 where
    s0: "sanitize_character (fst (first_two cs)) = Inr (m0, a0)" by blast
  from sanitize_character_total [OF wf(2)] obtain m1 a1 where
    s1: "sanitize_character (snd (first_two cs)) = Inr (m1, a1)" by blast
  note a0 = sanitize_character_Inr [OF s0] and a1 = sanitize_character_Inr [OF s1]
  have "\<exists>r. distinct_names m0 a0 m1 a1 = Inr r"
    using a0(1) a1(1) by (simp add: distinct_names_def set_prop_put)
  then obtain r where dn: "distinct_names m0 a0 m1 a1 = Inr r" ..
  obtain n1 b0 n2 b1 where r: "r = (n1, b0, n2, b1)"
    by (cases r) auto
  note b = distinct_names_Inr [OF dn [unfolded r] a0(1) a1(1) a0(2) a1(2)]
  from getValidVoice_total [OF b(2)] obtain v1 i where
    g0: "getValidVoice rnd 0 b0 JUndefined = Inr (v1, i)" by blast
  from getValidVoice_total [OF b(3)] obtain v2 j where
    g1: "getValidVoice rnd i b1 v1 = Inr (v2, j)" by blast
  have "normalize_characters rnd cs =
      Inr ([put_prop b0 ''voice'' v1, put_prop b1 ''voice'' v2], n1, n2)"
    unfolding normalize_characters_def take_2_pad_characters
    by (simp add: s0 s1 dn r g0 g1 set_prop_put b(2,3))
  then show ?thesis by blast
qed

lemma is_string_JStr: "is_string r \<longleftrightarrow> (\<exists>s. r = Inr (JStr s))"
  by (auto simp: is_string_def split: sum.splits jsval.splits)

text \<open>
  C1, amended. On every well-formed payload (an object whose entries for the two
  characters and whose script lines are objects with a name or speaker that can be
  converted to a string, no raw speaker being the name of a member of
  \<^verbatim>\<open>Object.prototype\<close>), and for every outcome of \<^verbatim>\<open>Math.random\<close>, the
  normalisation completes without throwing and returns a structurally valid Scenario.
\<close>

theorem normalize_total_on_well_formed:
  assumes "well_formed_payload data" and "\<forall>i. 0 \<le> rnd i \<and> rnd i < 1"
  shows "\<exists>scenario. normalize rnd data = Inr scenario \<and> valid_scenario scenario"
proof -
  from assms(1) have obj: "is_object data" and
    wfc: "list_all well_formed_character (take 2 (supplied_characters data))" and
    wfl: "list_all well_formed_line (supplied_script data)"
    by (simp_all add: well_formed_payload_def)
  from normalize_characters_total [OF wfc] obtain chars n1 n2 where
    nc: "normalize_characters rnd (supplied_characters data) = Inr (chars, n1, n2)"
    by blast
  have lines: "\<forall>l \<in> set (supplied_script data). is_object l \<and> (\<exists>s. raw_speaker l = Inr s)"
    using wfl well_formed_lineD by (simp add: list_all_iff)
  have noproto: "\<forall>l \<in> set (supplied_script data). speaker_of l \<notin> set proto_keys"
    using wfl well_formed_lineD by (simp add: list_all_iff)
  let ?m = "build_speakerMap n1 n2 (script_speakers (supplied_script data))"
  let ?new_script = "map (relabel ?m n1) (supplied_script data)"
  note ns = normalize_script_eq [OF lines, of n1 n2]
  let ?out = "put_prop (put_prop data ''characters'' (JArr chars [])) ''script''
          (JArr ?new_script (script_props data))"
  have run: "normalize rnd data = Inr ?out"
    by (rule normalize_eq [OF obj nc ns])
  from normalize_characters_Inr(1) [OF nc] assms(2) obtain c1 c2 where
    chars: "chars = [c1, c2]" and c1: "valid_character c1" and c2: "valid_character c2"
    unfolding valid_character_def is_string_JStr by blast
  have "valid_line l'" if "l' \<in> set ?new_script" for l'
  proof -
    from that obtain l where l: "l \<in> set (supplied_script data)" "l' = relabel ?m n1 l"
      by auto
    with lines noproto have "is_object l" "speaker_of l \<notin> set proto_keys"
      by auto
    from relabel_speaker [OF this build_speakerMap_values,
        of n1 n2 "script_speakers (supplied_script data)"] l(2) show ?thesis
      unfolding valid_line_def is_string_JStr by blast
  qed
  then have "list_all valid_line ?new_script"
    by (simp add: list_all_iff)
  then have "valid_scenario ?out"
    using obj chars c1 c2 by (simp add: valid_scenario_def get_put_prop)
  with run show ?thesis by blast
qed

lemma assign_keys:
  "fst ` set (assign m k v) = (if k = ''__proto__'' then fst ` set m else insert k (fst ` set m))"
  by (simp add: assign_def dom_update)

lemma count_speaker_keys:
  "fst ` set (count_speaker c s) =
     (if s = ''__proto__'' then fst ` set c else insert s (fst ` set c))"
  by (simp add: count_speaker_def assign_keys split: option.splits)

lemma count_speakers_keys:
  "fst ` set (foldl count_speaker c ss) = fst ` set c \<union> (set ss - {''__proto__''})"
  by (induction ss arbitrary: c) (auto simp: count_speaker_keys)

lemma set_object_keys: "set (object_keys obj) = fst ` set obj"
  by (auto simp: object_keys_def)

lemma set_insert_sorted: "set (insert_sorted cmp x ys) = insert x (set ys)"
  by (induction ys) auto

lemma set_array_sort: "set (array_sort cmp xs) = set xs"
  by (induction xs) (simp_all add: array_sort_def set_insert_sorted)

lemma set_script_speakers:
  "set (script_speakers lines) = speaker_of ` set lines - {''__proto__''}"
  by (simp add: script_speakers_def set_array_sort set_object_keys speaker_counts_def
      count_speakers_keys)

lemma map_of_assign:
  "k \<noteq> ''__proto__'' \<Longrightarrow> map_of (assign m k v) = (map_of m)(k \<mapsto> v)"
  by (simp add: assign_def update_conv')

lemma match_all_speakers:
  assumes "''__proto__'' \<notin> set ks"
    and "\<forall>s \<in> set ks. fuzzy_match s n1 \<or> fuzzy_match s n2"
  shows "map_of (foldl (match_speaker n1 n2) m ks) s =
    (if s \<in> set ks then Some (target n1 n2 s) else map_of m s)"
  using assms
proof (induction ks arbitrary: m)
  case Nil
  then show ?case by simp
next
  case (Cons k ks)
  from Cons.prems have k: "k \<noteq> ''__proto__''" "fuzzy_match k n1 \<or> fuzzy_match k n2"
    by auto
  then have step: "map_of (match_speaker n1 n2 m k) = (map_of m)(k \<mapsto> target n1 n2 k)"
    by (auto simp: match_speaker_def target_def map_of_assign)
  from Cons.prems have rest: "''__proto__'' \<notin> set ks"
    "\<forall>s \<in> set ks. fuzzy_match s n1 \<or> fuzzy_match s n2"
    by auto
  show ?case
    using Cons.IH [OF rest, of "match_speaker n1 n2 m k"] by (simp add: step)
qed

lemma build_speakerMap_all_matched:
  assumes "''__proto__'' \<notin> set ks"
    and "\<forall>s \<in> set ks. fuzzy_match s n1 \<or> fuzzy_match s n2"
    and "n1 \<noteq> []" "n2 \<noteq> []"
  shows "build_speakerMap n1 n2 ks = foldl (match_speaker n1 n2) [] ks"
proof -
  let ?m0 = "foldl (match_speaker n1 n2) [] ks"
  have "truthy (lookup ?m0 s)" if "s \<in> set ks" for s
    using that match_all_speakers [OF assms(1,2), of "[]" s] assms(3,4)
    by (simp add: lookup_def target_def)
  then have "filter (\<lambda>s. \<not> truthy (lookup ?m0 s)) ks = []"
    by (simp add: filter_empty_conv)
  then show ?thesis
    by (simp add: build_speakerMap_def Let_def has_speaker_at_def)
qed

lemma lookup_all_matched:
  assumes "''__proto__'' \<notin> set ks"
    and "\<forall>s \<in> set ks. fuzzy_match s n1 \<or> fuzzy_match s n2"
    and "n1 \<noteq> []" "n2 \<noteq> []" and "s \<in> set ks"
  shows "lookup (build_speakerMap n1 n2 ks) s = JStr (target n1 n2 s)"
  using match_all_speakers [OF assms(1,2), of "[]" s] assms(5)
  by (simp add: build_speakerMap_all_matched [OF assms(1-4)] lookup_def)

lemma fuzzy_match_refl: "fuzzy_match s s"
  by (simp add: fuzzy_match_def)

lemma normalize_script_characters_only:
  assumes names: "n1 \<noteq> []" "n2 \<noteq> []" "n1 \<noteq> ''__proto__''" "n2 \<noteq> ''__proto__''"
    and lines: "\<forall>l \<in> set lines. is_object l \<and> (raw_speaker l = Inr n1 \<or> raw_speaker l = Inr n2)"
  shows "normalize_script n1 n2 lines =
    Inr (map (\<lambda>l. put_prop l ''speaker'' (JStr (target n1 n2 (speaker_of l)))) lines)"
proof -
  let ?ks = "script_speakers lines"
  have sp: "speaker_of l = n1 \<or> speaker_of l = n2" if "l \<in> set lines" for l
    using that lines by (auto simp: speaker_of_def)
  have ks: "set ?ks = speaker_of ` set lines"
    using sp names(3,4) by (auto simp: set_script_speakers)
  have noproto: "''__proto__'' \<notin> set ?ks"
    by (simp add: set_script_speakers)
  have matched: "\<forall>s \<in> set ?ks. fuzzy_match s n1 \<or> fuzzy_match s n2"
    using sp ks fuzzy_match_refl by auto
  have "relabel (build_speakerMap n1 n2 ?ks) n1 l =
      put_prop l ''speaker'' (JStr (target n1 n2 (speaker_of l)))" if "l \<in> set lines" for l
  proof -
    from that ks have "speaker_of l \<in> set ?ks" by simp
    from lookup_all_matched [OF noproto matched names(1,2) this] names(1,2) show ?thesis
      by (simp add: relabel_def target_def)
  qed
  then have "map (relabel (build_speakerMap n1 n2 ?ks) n1) lines =
      map (\<lambda>l. put_prop l ''speaker'' (JStr (target n1 n2 (speaker_of l)))) lines"
    by simp
  moreover have "\<forall>l \<in> set lines. is_object l \<and> (\<exists>s. raw_speaker l = Inr s)"
    using lines by auto
  ultimately show ?thesis
    using normalize_script_eq [of lines n1 n2] by simp
qed

lemma sanitize_character_fixpoint:
  assumes "is_object c" "get_prop c ''name'' = Inr (JStr n)" "trim n = n"
    "get_prop c ''gender'' = Inr (JStr g)" "g = ''male'' \<or> g = ''female''"
  shows "sanitize_character c = Inr (n, c)"
proof -
  have "set_prop c ''name'' (JStr n) = Inr c"
    using assms(1,2) by (simp add: set_prop_same)
  then show ?thesis
    using assms by (auto simp: sanitize_character_def)
qed

lemma getValidVoice_fixpoint:
  assumes "get_prop c ''gender'' = Inr (JStr g)" "get_prop c ''voice'' = Inr (JStr v)"
    "v \<in> set (voices_of g)" "JStr v \<noteq> taken"
  shows "getValidVoice rnd i c taken = Inr (JStr v, i)"
  using assms(3,4) by (simp add: getValidVoice_eq [OF assms(1,2)])

lemma normalize_characters_fixpoint:
  assumes "is_object c1" "is_object c2"
    and "get_prop c1 ''name'' = Inr (JStr n1)" "get_prop c2 ''name'' = Inr (JStr n2)"
    and "trim n1 = n1" "trim n2 = n2" "n1 \<noteq> n2"
    and "get_prop c1 ''gender'' = Inr (JStr g1)" "g1 = ''male'' \<or> g1 = ''female''"
    and "get_prop c2 ''gender'' = Inr (JStr g2)" "g2 = ''male'' \<or> g2 = ''female''"
    and "get_prop c1 ''voice'' = Inr (JStr v1)" "v1 \<in> set (voices_of g1)"
    and "get_prop c2 ''voice'' = Inr (JStr v2)" "v2 \<in> set (voices_of g2)" "v1 \<noteq> v2"
  shows "normalize_characters rnd [c1, c2] = Inr ([c1, c2], n1, n2)"
proof -
  have two: "take 2 (pad_characters [c1, c2]) = [c1, c2]"
    by (simp add: take_2_pad_characters first_two_def)
  have s1: "sanitize_character c1 = Inr (n1, c1)"
    using assms by (intro sanitize_character_fixpoint)
  have s2: "sanitize_character c2 = Inr (n2, c2)"
    using assms by (intro sanitize_character_fixpoint)
  have dn: "distinct_names n1 c1 n2 c2 = Inr (n1, c1, n2, c2)"
    using assms(7) by (simp add: distinct_names_def)
  have g1: "getValidVoice rnd 0 c1 JUndefined = Inr (JStr v1, 0)"
    using assms by (intro getValidVoice_fixpoint) simp_all
  have g2: "getValidVoice rnd 0 c2 (JStr v1) = Inr (JStr v2, 0)"
    using assms by (intro getValidVoice_fixpoint) auto
  have p1: "set_prop c1 ''voice'' (JStr v1) = Inr c1"
    using assms by (simp add: set_prop_same)
  have p2: "set_prop c2 ''voice'' (JStr v2) = Inr c2"
    using assms by (simp add: set_prop_same)
  show ?thesis
    unfolding normalize_characters_def two
    by (simp add: s1 s2 dn g1 g2 p1 p2)
qed

lemma raw_speaker_put:
  assumes "is_object l" "t \<noteq> []" "trim t = t"
  shows "raw_speaker (put_prop l ''speaker'' (JStr t)) = Inr t"
  using assms by (simp add: raw_speaker_def get_put_prop)

lemma target_cases:
  assumes "s = n1 \<or> s = n2"
  shows "target n1 n2 s = n1 \<or> target n1 n2 s = n2" "target n1 n2 (target n1 n2 s) = target n1 n2 s"
  using assms by (auto simp: target_def fuzzy_match_refl)

lemma final_names_Some:
  assumes "final_names scenario = Some (n1, n2)"
  shows "\<exists>c1 c2 ps. get_prop scenario ''characters'' = Inr (JArr [c1, c2] ps) \<and>
    get_prop c1 ''name'' = Inr (JStr n1) \<and> get_prop c2 ''name'' = Inr (JStr n2)"
  using assms unfolding final_names_def
  by (auto split: sum.splits jsval.splits list.splits)

text \<open>
  C8, amended. When the two final names are non-empty, carry no white space at their
  ends and are not \<^verbatim>\<open>__proto__\<close>, and the raw speaker of every script line of the
  payload equals one of the two final names, the normalisation is idempotent: run on
  its own output, with any outcome of \<^verbatim>\<open>Math.random\<close>, it returns that output.
\<close>

theorem normalize_idempotent:
  assumes run: "normalize rnd data = Inr scenario"
    and rng: "\<forall>i. 0 \<le> rnd i \<and> rnd i < 1"
    and fin: "final_names scenario = Some (n1, n2)"
    and names: "n1 \<noteq> []" "n2 \<noteq> []" "trim n1 = n1" "trim n2 = n2"
      "n1 \<noteq> ''__proto__''" "n2 \<noteq> ''__proto__''"
    and speakers: "list_all (\<lambda>line. raw_speaker line = Inr n1 \<or> raw_speaker line = Inr n2)
      (supplied_script data)"
  shows "normalize rnd' scenario = Inr scenario"
proof -
  from normalize_Inr [OF run] obtain chars m1 m2 new_script where
    obj: "is_object data" and
    nc: "normalize_characters rnd (supplied_characters data) = Inr (chars, m1, m2)" and
    ns: "normalize_script m1 m2 (supplied_script data) = Inr new_script" and
    out: "scenario = put_prop (put_prop data ''characters'' (JArr chars [])) ''script''
            (JArr new_script (script_props data))"
    by blast
  have chars_out: "get_prop scenario ''characters'' = Inr (JArr chars [])"
    and script_out: "get_prop scenario ''script'' = Inr (JArr new_script (script_props data))"
    and obj_out: "is_object scenario"
    using obj by (simp_all add: out get_put_prop)
  from normalize_characters_Inr(1) [OF nc] rng obtain c1 c2 g1 g2 v1 v2 where
    c: "chars = [c1, c2]" "is_object c1" "is_object c2"
      "get_prop c1 ''name'' = Inr (JStr m1)" "get_prop c2 ''name'' = Inr (JStr m2)" "m1 \<noteq> m2"
      "get_prop c1 ''gender'' = Inr (JStr g1)" "g1 = ''male'' \<or> g1 = ''female''"
      "get_prop c2 ''gender'' = Inr (JStr g2)" "g2 = ''male'' \<or> g2 = ''female''"
      "get_prop c1 ''voice'' = Inr (JStr v1)" "v1 \<in> set (voices_of g1)"
      "get_prop c2 ''voice'' = Inr (JStr v2)" "v2 \<in> set (voices_of g2)" "v1 \<noteq> v2"
    by blast
  from final_names_Some [OF fin] chars_out c(1,4,5) have m: "m1 = n1" "m2 = n2"
    by auto
  have nc2: "normalize_characters rnd' (supplied_characters scenario) = Inr (chars, n1, n2)"
    unfolding supplied_characters_def chars_out using c names(3,4) m
    by (simp add: normalize_characters_fixpoint [where ?g1.0 = g1 and ?g2.0 = g2])
  let ?lines = "supplied_script data"
  have lines: "\<forall>l \<in> set ?lines. is_object l \<and> (raw_speaker l = Inr n1 \<or> raw_speaker l = Inr n2)"
    using speakers normalize_script_Inr [OF ns] by (auto simp: list_all_iff)
  have new_script: "new_script = map (\<lambda>l. put_prop l ''speaker'' (JStr (target n1 n2 (speaker_of l)))) ?lines"
    using normalize_script_characters_only [OF names(1,2,5,6) lines] ns m by simp
  have sp: "speaker_of l = n1 \<or> speaker_of l = n2" if "l \<in> set ?lines" for l
    using that lines by (auto simp: speaker_of_def)
  have tgt: "target n1 n2 s \<noteq> [] \<and> trim (target n1 n2 s) = target n1 n2 s" for s
    using names(1-4) by (simp add: target_def)
  have lines2: "\<forall>l' \<in> set new_script. is_object l' \<and>
      (raw_speaker l' = Inr n1 \<or> raw_speaker l' = Inr n2)"
  proof
    fix l' assume "l' \<in> set new_script"
    then obtain l where l: "l \<in> set ?lines"
      "l' = put_prop l ''speaker'' (JStr (target n1 n2 (speaker_of l)))"
      unfolding new_script by auto
    from l(1) lines have o: "is_object l" by simp
    have "raw_speaker l' = Inr (target n1 n2 (speaker_of l))"
      unfolding l(2) using o tgt by (intro raw_speaker_put) simp_all
    with target_cases(1) [OF sp [OF l(1)]] o l(2)
    show "is_object l' \<and> (raw_speaker l' = Inr n1 \<or> raw_speaker l' = Inr n2)"
      by auto
  qed
  have fix_line: "put_prop l' ''speaker'' (JStr (target n1 n2 (speaker_of l'))) = l'"
    if "l' \<in> set new_script" for l'
  proof -
    from that obtain l where l: "l \<in> set ?lines"
      "l' = put_prop l ''speaker'' (JStr (target n1 n2 (speaker_of l)))"
      unfolding new_script by auto
    from l(1) lines have o: "is_object l" by simp
    have "raw_speaker l' = Inr (target n1 n2 (speaker_of l))"
      unfolding l(2) using o tgt by (intro raw_speaker_put) simp_all
    then have "speaker_of l' = target n1 n2 (speaker_of l)"
      by (simp add: speaker_of_def)
    then show ?thesis
      using target_cases(2) [OF sp [OF l(1)]] by (simp add: l(2))
  qed
  have "supplied_script scenario = new_script"
    by (simp add: supplied_script_def script_out)
  then have ns2: "normalize_script n1 n2 (supplied_script scenario) = Inr new_script"
    using normalize_script_characters_only [OF names(1,2,5,6) lines2] fix_line
    by (simp add: map_idI)
  have props: "script_props scenario = script_props data"
    by (simp add: script_props_def script_out)
  have 1: "put_prop scenario ''characters'' (JArr chars []) = scenario"
    using obj_out chars_out by (simp add: put_prop_same)
  have 2: "put_prop scenario ''script'' (JArr new_script (script_props data)) = scenario"
    using obj_out script_out by (simp add: put_prop_same)
  show ?thesis
    using normalize_eq [OF obj_out nc2 ns2] by (simp add: props 1 2)
qed

text \<open>
  Where no raw speaker has the name of a member of \<^verbatim>\<open>Object.prototype\<close>, every line
  of the normalised script has the name of one of the two characters as its speaker.
\<close>

lemma normalize_speakers_are_names:
  assumes run: "normalize rnd data = Inr scenario"
    and fin: "final_names scenario = Some (n1, n2)"
    and noproto: "list_all (\<lambda>l. speaker_of l \<notin> set proto_keys) (supplied_script data)"
  shows "list_all (\<lambda>l. get_prop l ''speaker'' = Inr (JStr n1) \<or> get_prop l ''speaker'' = Inr (JStr n2))
    (supplied_script scenario)"
proof -
  from normalize_Inr [OF run] obtain chars m1 m2 new_script where
    obj: "is_object data" and
    nc: "normalize_characters rnd (supplied_characters data) = Inr (chars, m1, m2)" and
    ns: "normalize_script m1 m2 (supplied_script data) = Inr new_script" and
    out: "scenario = put_prop (put_prop data ''characters'' (JArr chars [])) ''script''
            (JArr new_script (script_props data))"
    by blast
  have chars_out: "get_prop scenario ''characters'' = Inr (JArr chars [])"
    and script_out: "supplied_script scenario = new_script"
    using obj by (simp_all add: out get_put_prop supplied_script_def)
  from normalize_characters_Inr(1) [OF nc] obtain c1 c2 where
    "chars = [c1, c2]" "get_prop c1 ''name'' = Inr (JStr m1)" "get_prop c2 ''name'' = Inr (JStr m2)"
    by blast
  with final_names_Some [OF fin] chars_out have m: "m1 = n1" "m2 = n2"
    by auto
  note lines = normalize_script_Inr [OF ns]
  let ?m = "build_speakerMap n1 n2 (script_speakers (supplied_script data))"
  have new: "new_script = map (relabel ?m n1) (supplied_script data)"
    using normalize_script_eq [OF lines, of m1 m2] ns m by simp
  have "get_prop l' ''speaker'' = Inr (JStr n1) \<or> get_prop l' ''speaker'' = Inr (JStr n2)"
    if "l' \<in> set new_script" for l'
  proof -
    from that obtain l where l: "l \<in> set (supplied_script data)" "l' = relabel ?m n1 l"
      unfolding new by auto
    with lines noproto have "is_object l" "speaker_of l \<notin> set proto_keys"
      by (auto simp: list_all_iff)
    from relabel_speaker(2) [OF this build_speakerMap_values,
        of n1 n2 "script_speakers (supplied_script data)"] l(2)
    show ?thesis by simp
  qed
  then show ?thesis
    by (simp add: script_out list_all_iff)
qed

text \<open>
  Where the script speakers are at least two, none of them matches a character and none
  has the name of a member of \<^verbatim>\<open>Object.prototype\<close>, the speaker map gives the first
  speaker to the first character, the second speaker to the second character and every
  further speaker to the first character. The script speakers are always distinct.
\<close>

lemma distinct_assign: "distinct (map fst m) \<Longrightarrow> distinct (map fst (assign m k v))"
  by (simp add: assign_def distinct_update)

lemma distinct_count_speakers:
  "distinct (map fst c) \<Longrightarrow> distinct (map fst (foldl count_speaker c ss))"
proof (induction ss arbitrary: c)
  case Nil
  then show ?case by simp
next
  case (Cons s ss)
  have "distinct (map fst (count_speaker c s))"
    using Cons.prems by (simp add: count_speaker_def distinct_assign split: option.splits)
  then show ?case
    using Cons.IH by simp
qed

lemma distinct_object_keys: "distinct (map fst obj) \<Longrightarrow> distinct (object_keys obj)"
  by (auto simp: object_keys_def)

lemma distinct_insert_sorted:
  "distinct ys \<Longrightarrow> x \<notin> set ys \<Longrightarrow> distinct (insert_sorted cmp x ys)"
  by (induction ys) (auto simp: set_insert_sorted)

lemma distinct_array_sort: "distinct xs \<Longrightarrow> distinct (array_sort cmp xs)"
proof (induction xs)
  case Nil
  then show ?case by (simp add: array_sort_def)
next
  case (Cons x xs)
  then have "distinct (array_sort cmp xs)" "x \<notin> set (array_sort cmp xs)"
    by (simp_all add: set_array_sort)
  then have "distinct (insert_sorted cmp x (array_sort cmp xs))"
    by (rule distinct_insert_sorted)
  then show ?case
    by (simp add: array_sort_def)
qed

lemma distinct_script_speakers: "distinct (script_speakers lines)"
  by (simp add: script_speakers_def speaker_counts_def distinct_array_sort distinct_object_keys
      distinct_count_speakers)

lemma str_includes_empty: "str_includes [] s"
  by (cases s) simp_all

lemma fuzzy_match_empty: "fuzzy_match [] n"
  by (simp add: fuzzy_match_def toLowerCase_def str_includes_empty)

lemma match_no_speaker:
  "\<forall>s \<in> set ks. \<not> fuzzy_match s n1 \<and> \<not> fuzzy_match s n2 \<Longrightarrow>
   foldl (match_speaker n1 n2) m ks = m"
  by (induction ks arbitrary: m) (simp_all add: match_speaker_def)

lemma update_fresh: "k \<notin> fst ` set m \<Longrightarrow> AList.update k v m = m @ [(k, v)]"
  by (induction m) auto

lemma assign_rest:
  assumes "distinct ks" "set ks \<inter> fst ` set m = {}" "''__proto__'' \<notin> set ks"
  shows "foldl (\<lambda>m s. assign m s n) m ks = m @ map (\<lambda>s. (s, n)) ks"
  using assms
proof (induction ks arbitrary: m)
  case Nil
  then show ?case by simp
next
  case (Cons k ks)
  from Cons.prems have k: "k \<notin> fst ` set m" "k \<noteq> ''__proto__''"
    by auto
  then have step: "assign m k n = m @ [(k, n)]"
    by (simp add: assign_def update_fresh)
  from Cons.prems have "distinct ks" "set ks \<inter> fst ` set (m @ [(k, n)]) = {}"
    "''__proto__'' \<notin> set ks"
    by auto
  from Cons.IH [OF this] show ?case
    by (simp add: step)
qed

lemma build_speakerMap_unmatched:
  assumes dist: "distinct ks" and two: "2 \<le> length ks"
    and unmatched: "\<forall>s \<in> set ks. \<not> fuzzy_match s n1 \<and> \<not> fuzzy_match s n2"
    and noproto: "\<forall>s \<in> set ks. s \<notin> set proto_keys"
    and names: "n1 \<noteq> n2"
  shows "build_speakerMap n1 n2 ks =
    (ks ! 0, n1) # (ks ! 1, n2) # map (\<lambda>s. (s, n1)) (drop 2 ks)"
proof -
  from two obtain a b rest where ks: "ks = a # b # rest"
    by (cases ks; cases "tl ks") auto
  have m0: "foldl (match_speaker n1 n2) [] ks = []"
    by (rule match_no_speaker [OF unmatched])
  have nonempty: "s \<noteq> []" if "s \<in> set ks" for s
    using that unmatched fuzzy_match_empty by auto
  have np: "s \<noteq> ''__proto__''" if "s \<in> set ks" for s
    using that noproto by (auto simp: proto_keys_def)
  have "lookup [] s = JUndefined" if "s \<in> set ks" for s
    using that noproto by (simp add: lookup_def)
  then have un: "filter (\<lambda>s. \<not> truthy (lookup [] s)) ks = ks"
    by (simp add: filter_id_conv)
  have a: "a \<noteq> []" "a \<noteq> ''__proto__''" and b: "b \<noteq> []" "b \<noteq> ''__proto__''" "b \<noteq> a"
    using nonempty np dist by (auto simp: ks)
  have rest: "distinct rest" "set rest \<inter> fst ` set [(a, n1), (b, n2)] = {}"
    "''__proto__'' \<notin> set rest"
    using dist np by (auto simp: ks)
  have "build_speakerMap n1 n2 ks =
      foldl (\<lambda>m s. assign m s n1) [(a, n1), (b, n2)] rest"
    unfolding build_speakerMap_def Let_def m0 un
    using a b names by (simp add: ks isCharUsed_def has_speaker_at_def assign_def)
  also have "\<dots> = [(a, n1), (b, n2)] @ map (\<lambda>s. (s, n1)) rest"
    by (rule assign_rest [OF rest])
  finally show ?thesis
    by (simp add: ks)
qed

subsection \<open>Audio synthesis orchestrator\<close>

text \<open>
  C5. When the attempt in the native language fails, for whatever reason,
  \<^verbatim>\<open>generateDialogueAudio\<close> makes exactly one more attempt, with the translations:
  if that attempt succeeds its buffer is returned and the first failure is not
  reported; if it fails too, the function fails with the error
  \<^verbatim>\<open>Audio generation failed: \<close> followed by the message of the second failure.
\<close>

theorem generateDialogueAudio_fallback:
  "(performGeneration speech decode scenario False k = (Inl error, k1) \<and>
    performGeneration speech decode scenario True k1 = (Inr buffer, k2) \<longrightarrow>
      generateDialogueAudio speech decode scenario k =
        \<lparr>audio = Inr buffer, attempts = [False, True], requests = k2\<rparr>) \<and>
   (performGeneration speech' decode' scenario' False j = (Inl error', j1) \<and>
    performGeneration speech' decode' scenario' True j1 = (Inl fallbackError, j2) \<longrightarrow>
      generateDialogueAudio speech' decode' scenario' j =
        \<lparr>audio = Inl (new_Error (''Audio generation failed: '' @ error_text fallbackError)),
         attempts = [False, True], requests = j2\<rparr>)"
  by (simp add: generateDialogueAudio_def)

lemma dawn_market_native_fails:
  "performGeneration english_only as_it_is dawn_market False 0 =
     (Inl (new_Error ''No audio data returned from the model (Finish Reason: OTHER).''), 1)"
  by code_simp

lemma dawn_market_translation_succeeds:
  "performGeneration english_only as_it_is dawn_market True 1 = (Inr ''UklGRg=='', 2)"
  by code_simp

lemma dawn_market_mute:
  "performGeneration mute as_it_is dawn_market False 0 =
     (Inl (new_Error ''No audio data returned from the model (Finish Reason: OTHER).''), 1)"
  "performGeneration mute as_it_is dawn_market True 1 =
     (Inl (new_Error ''No audio data returned from the model (Finish Reason: OTHER).''), 2)"
  by code_simp+

theorem generateDialogueAudio_fallback_witness:
  "(performGeneration english_only as_it_is dawn_market False 0 =
      (Inl (new_Error ''No audio data returned from the model (Finish Reason: OTHER).''), 1) \<and>
    performGeneration english_only as_it_is dawn_market True 1 = (Inr ''UklGRg=='', 2)) \<and>
   generateDialogueAudio english_only as_it_is dawn_market 0 =
     \<lparr>audio = Inr ''UklGRg=='', attempts = [False, True], requests = 2\<rparr> \<and>
   (performGeneration mute as_it_is dawn_market False 0 =
      (Inl (new_Error ''No audio data returned from the model (Finish Reason: OTHER).''), 1) \<and>
    performGeneration mute as_it_is dawn_market True 1 =
      (Inl (new_Error ''No audio data returned from the model (Finish Reason: OTHER).''), 2)) \<and>
   generateDialogueAudio mute as_it_is dawn_market 0 =
     \<lparr>audio = Inl (new_Error
        ''Audio generation failed: No audio data returned from the model (Finish Reason: OTHER).''),
      attempts = [False, True], requests = 2\<rparr>"
  using generateDialogueAudio_fallback
    [of english_only as_it_is dawn_market 0
      "new_Error ''No audio data returned from the model (Finish Reason: OTHER).''" 1 "''UklGRg==''" 2
      mute as_it_is dawn_market 0
      "new_Error ''No audio data returned from the model (Finish Reason: OTHER).''" 1
      "new_Error ''No audio data returned from the model (Finish Reason: OTHER).''" 2]
    dawn_market_native_fails dawn_market_translation_succeeds dawn_market_mute
  by (simp add: error_text_def new_Error_def)

subsection \<open>Media stage\<close>

lemma avatar_step_eq:
  "avatar_step image_service scene char =
     (if has_description char
      then ([(description_of char, scene)],
            char\<lparr>avatarUrl := avatar_of (generateCharacterAvatar image_service (description_of char) scene)\<rparr>)
      else ([], char))"
  by (simp add: avatar_step_def has_description_def description_of_def avatar_of_def
      split: option.splits)

lemma avatar_requests_eq:
  "concat (map (fst \<circ> avatar_step image_service scene) chars) =
     map (\<lambda>char. (description_of char, scene)) (filter has_description chars)"
  by (induction chars) (simp_all add: avatar_step_eq)

text \<open>
  C10. With image generation requested, the media stage issues an avatar request only
  for the characters whose \<^verbatim>\<open>visualDescription\<close> is neither missing nor empty, one
  each and in their order; a character without description is merged unchanged, and a
  character with one gets the avatar that the service returns for its own description
  and the context, whatever the other characters are.
\<close>

theorem imagesPromise_avatars:
  "avatar_requests (imagesPromise image_service True scenarioData) =
     map (\<lambda>char. (description_of char, scene_context scenarioData))
       (filter has_description (characters scenarioData)) \<and>
   length (characters (scenarioWithImages (imagesPromise image_service True scenarioData))) =
     length (characters scenarioData) \<and>
   (\<forall>i < length (characters scenarioData).
      (\<not> has_description (characters scenarioData ! i) \<longrightarrow>
         characters (scenarioWithImages (imagesPromise image_service True scenarioData)) ! i =
           characters scenarioData ! i) \<and>
      (has_description (characters scenarioData ! i) \<longrightarrow>
         characters (scenarioWithImages (imagesPromise image_service True scenarioData)) ! i =
           (characters scenarioData ! i)
             \<lparr>avatarUrl := avatar_of (generateCharacterAvatar image_service
                 (description_of (characters scenarioData ! i)) (scene_context scenarioData))\<rparr>))"
  by (simp add: imagesPromise_def Let_def avatar_requests_eq avatar_step_eq)

lemma dawn_market_characters:
  "length (characters dawn_market) = 2"
  by (simp add: dawn_market_def)

lemma dawn_market_avatar:
  "generateCharacterAvatar painter ''A fishwife in a woollen shawl.'' ''A fish market at dawn.'' =
     Some ''data:image/png;base64,iVBORw0KGgo=''"
  by code_simp

theorem imagesPromise_avatars_witness:
  "avatar_requests (imagesPromise painter True dawn_market) =
     [(''A fishwife in a woollen shawl.'', ''A fish market at dawn.'')] \<and>
   \<not> has_description (characters dawn_market ! 1) \<and>
   characters (scenarioWithImages (imagesPromise painter True dawn_market)) ! 1 =
     characters dawn_market ! 1 \<and>
   has_description (characters dawn_market ! 0) \<and>
   characters (scenarioWithImages (imagesPromise painter True dawn_market)) ! 0 =
     (characters dawn_market ! 0)\<lparr>avatarUrl := Some ''data:image/png;base64,iVBORw0KGgo=''\<rparr>"
proof -
  have d: "has_description (characters dawn_market ! 0)"
    "\<not> has_description (characters dawn_market ! Suc 0)"
    "description_of (characters dawn_market ! 0) = ''A fishwife in a woollen shawl.''"
    "scene_context dawn_market = ''A fish market at dawn.''"
    by (simp_all add: dawn_market_def has_description_def description_of_def)
  have f: "filter has_description (characters dawn_market) = [characters dawn_market ! 0]"
    by (simp add: dawn_market_def has_description_def)
  from imagesPromise_avatars [of painter dawn_market] show ?thesis
    by (simp add: d f dawn_market_characters dawn_market_avatar avatar_of_def All_less_Suc2
        numeral_2_eq_2)
qed

subsection \<open>Runs of the normaliser on the example inputs\<close>

text \<open>
  C1, as the claim states it, fails on an array entry that is \<^verbatim>\<open>null\<close>: reading
  \<^verbatim>\<open>c.name\<close> throws a \<^verbatim>\<open>TypeError\<close>.
\<close>

theorem normalize_null_character_throws:
  "normalize rnd_zero null_character = Inl TypeError"
  by code_simp

lemma rnd_half_range: "\<forall>i. 0 \<le> rnd_half i \<and> rnd_half i < 1"
  by (simp add: rnd_half_def)

lemma rnd_zero_range: "\<forall>i. 0 \<le> rnd_zero i \<and> rnd_zero i < 1"
  by (simp add: rnd_zero_def)

lemma market_scene_well_formed: "well_formed_payload market_scene"
  by code_simp

theorem normalize_total_on_well_formed_witness:
  "(well_formed_payload market_scene \<and> (\<forall>i. 0 \<le> rnd_half i \<and> rnd_half i < 1)) \<and>
   (\<exists>scenario. normalize rnd_half market_scene = Inr scenario \<and> valid_scenario scenario)"
  using normalize_total_on_well_formed [OF market_scene_well_formed rnd_half_range]
    market_scene_well_formed rnd_half_range
  by blast

text \<open>
  C2, as the claim states it, fails on a payload with one character whose name is the
  empty string: the first of the two names is empty.
\<close>

theorem normalize_one_unnamed_character:
  "normalize rnd_zero one_unnamed_character =
     Inr (JObj [(''characters'',
                 JArr [JObj [(''name'', JStr []), (''gender'', JStr ''male''), (''voice'', JStr ''Puck'')],
                       JObj [(''name'', JStr ''Speaker 2''), (''gender'', JStr ''female''),
                             (''voice'', JStr ''Kore''),
                             (''visualDescription'', JStr ''A person from this historical period.''),
                             (''bio'', JStr ''A local inhabitant of this era.'')]] []),
                (''script'', JArr [] [])])"
  by code_simp

lemma three_characters_eval:
  "normalize rnd_zero three_characters =
     Inr (JObj [(''characters'',
                 JArr [JObj [(''name'', JStr ''Ana''), (''gender'', JStr ''male''), (''voice'', JStr ''Puck'')],
                       JObj [(''name'', JStr []), (''gender'', JStr ''male''), (''voice'', JStr ''Fenrir'')]] []),
                (''script'', JArr [] [])])"
  by code_simp

theorem normalize_two_distinct_names_witness:
  "normalize rnd_zero three_characters =
     Inr (JObj [(''characters'',
                 JArr [JObj [(''name'', JStr ''Ana''), (''gender'', JStr ''male''), (''voice'', JStr ''Puck'')],
                       JObj [(''name'', JStr []), (''gender'', JStr ''male''), (''voice'', JStr ''Fenrir'')]] []),
                (''script'', JArr [] [])]) \<and>
   (\<exists>c1 c2 n1 n2.
      get_prop (JObj [(''characters'',
                 JArr [JObj [(''name'', JStr ''Ana''), (''gender'', JStr ''male''), (''voice'', JStr ''Puck'')],
                       JObj [(''name'', JStr []), (''gender'', JStr ''male''), (''voice'', JStr ''Fenrir'')]] []),
                (''script'', JArr [] [])]) ''characters'' = Inr (JArr [c1, c2] []) \<and>
      get_prop c1 ''name'' = Inr (JStr n1) \<and> get_prop c2 ''name'' = Inr (JStr n2) \<and>
      n1 \<noteq> n2 \<and>
      (n1 = [] \<longrightarrow> supplied_characters three_characters \<noteq> [] \<and>
         raw_name (supplied_characters three_characters ! 0) = Inr []) \<and>
      (n2 = [] \<longrightarrow> 2 \<le> length (supplied_characters three_characters) \<and>
         raw_name (supplied_characters three_characters ! 1) = Inr []))"
  using normalize_two_distinct_names [OF three_characters_eval] three_characters_eval
  by blast

lemma two_women_eval:
  "normalize rnd_half two_women_one_voice =
     Inr (JObj [(''characters'',
            JArr [JObj [(''name'', JStr ''Ana''), (''gender'', JStr ''female''), (''voice'', JStr ''Kore'')],
                  JObj [(''name'', JStr ''Eva''), (''gender'', JStr ''female''), (''voice'', JStr ''Aoede'')]] []),
                (''script'', JArr [] [])])"
  by code_simp

theorem normalize_voices_witness:
  "(normalize rnd_half two_women_one_voice =
     Inr (JObj [(''characters'',
            JArr [JObj [(''name'', JStr ''Ana''), (''gender'', JStr ''female''), (''voice'', JStr ''Kore'')],
                  JObj [(''name'', JStr ''Eva''), (''gender'', JStr ''female''), (''voice'', JStr ''Aoede'')]] []),
                (''script'', JArr [] [])]) \<and>
    (\<forall>i. 0 \<le> rnd_half i \<and> rnd_half i < 1)) \<and>
   (\<exists>c1 c2 g1 g2 v1 v2.
      get_prop (JObj [(''characters'',
            JArr [JObj [(''name'', JStr ''Ana''), (''gender'', JStr ''female''), (''voice'', JStr ''Kore'')],
                  JObj [(''name'', JStr ''Eva''), (''gender'', JStr ''female''), (''voice'', JStr ''Aoede'')]] []),
                (''script'', JArr [] [])]) ''characters'' = Inr (JArr [c1, c2] []) \<and>
      get_prop c1 ''gender'' = Inr (JStr g1) \<and> get_prop c1 ''voice'' = Inr (JStr v1) \<and>
      get_prop c2 ''gender'' = Inr (JStr g2) \<and> get_prop c2 ''voice'' = Inr (JStr v2) \<and>
      (g1 = ''male'' \<and> v1 \<in> {''Puck'', ''Fenrir'', ''Charon'', ''Zephyr''} \<or>
       g1 = ''female'' \<and> v1 \<in> {''Kore'', ''Aoede''}) \<and>
      (g2 = ''male'' \<and> v2 \<in> {''Puck'', ''Fenrir'', ''Charon'', ''Zephyr''} \<or>
       g2 = ''female'' \<and> v2 \<in> {''Kore'', ''Aoede''}) \<and>
      (g1 = g2 \<longrightarrow> v1 \<noteq> v2))"
  using normalize_voices [OF two_women_eval rnd_half_range] two_women_eval rnd_half_range
  by blast

text \<open>
  C4. The claim fails on a line whose speaker is \<^verbatim>\<open>constructor\<close>: the read
  \<^verbatim>\<open>speakerMap[line.speaker]\<close> finds the inherited member, which is truthy, and the
  line gets that function as its speaker instead of the name of a character.
\<close>

theorem normalize_constructor_speaker:
  "normalize rnd_zero constructor_speaker =
     Inr (JObj [(''characters'',
                 JArr [JObj [(''name'', JStr ''Ana''), (''gender'', JStr ''male''), (''voice'', JStr ''Puck'')],
                       JObj [(''name'', JStr ''Luis''), (''gender'', JStr ''male''), (''voice'', JStr ''Fenrir'')]] []),
                (''script'',
                 JArr [JObj [(''speaker'', JInherited ''constructor''), (''text'', JStr ''Bom dia.'')]] [])])"
  by code_simp

text \<open>Hence the line of that Scenario has a speaker that is the name of no character.\<close>

theorem normalize_constructor_speaker_witness:
  "case normalize rnd_zero constructor_speaker of
     Inl e \<Rightarrow> False
   | Inr scenario \<Rightarrow>
       supplied_script scenario \<noteq> [] \<and>
       list_all (\<lambda>line. get_prop line ''speaker'' \<noteq> Inr (JStr ''Ana'') \<and>
                        get_prop line ''speaker'' \<noteq> Inr (JStr ''Luis''))
         (supplied_script scenario)"
  using normalize_constructor_speaker by (simp add: supplied_script_def)

text \<open>
  C8, as the claim states it, fails when both names trim to the empty string: the
  names become \<^verbatim>\<open> (1)\<close> and \<^verbatim>\<open> (2)\<close>, the raw speaker of the one line equals the
  first of them, and a second run trims the names again.
\<close>

theorem normalize_unnamed_pair_twice:
  "normalize rnd_zero unnamed_pair =
     Inr (JObj [(''characters'',
                 JArr [JObj [(''name'', JStr '' (1)''), (''gender'', JStr ''male''), (''voice'', JStr ''Puck'')],
                       JObj [(''name'', JStr '' (2)''), (''gender'', JStr ''male''), (''voice'', JStr ''Fenrir'')]] []),
                (''script'', JArr [JObj [(''speaker'', JStr '' (1)'')]] [])]) \<and>
   normalize rnd_zero
     (JObj [(''characters'',
                 JArr [JObj [(''name'', JStr '' (1)''), (''gender'', JStr ''male''), (''voice'', JStr ''Puck'')],
                       JObj [(''name'', JStr '' (2)''), (''gender'', JStr ''male''), (''voice'', JStr ''Fenrir'')]] []),
                (''script'', JArr [JObj [(''speaker'', JStr '' (1)'')]] [])]) =
     Inr (JObj [(''characters'',
                 JArr [JObj [(''name'', JStr ''(1)''), (''gender'', JStr ''male''), (''voice'', JStr ''Puck'')],
                       JObj [(''name'', JStr ''(2)''), (''gender'', JStr ''male''), (''voice'', JStr ''Fenrir'')]] []),
                (''script'', JArr [JObj [(''speaker'', JStr ''(1)'')]] [])])"
  by code_simp

lemma harbour_scene_eval: "normalize rnd_half harbour_scene = Inr harbour_scene_normalized"
  by code_simp

lemma harbour_scene_names: "final_names harbour_scene_normalized = Some (''Ana'', ''Luis'')"
  by code_simp

lemma harbour_scene_speakers:
  "list_all (\<lambda>line. raw_speaker line = Inr ''Ana'' \<or> raw_speaker line = Inr ''Luis'')
     (supplied_script harbour_scene)"
  by code_simp

lemma harbour_scene_trimmed: "trim ''Ana'' = ''Ana''" "trim ''Luis'' = ''Luis''"
  by (simp_all add: trim_def is_space_def)

theorem normalize_idempotent_witness:
  "(normalize rnd_half harbour_scene = Inr harbour_scene_normalized \<and>
    (\<forall>i. 0 \<le> rnd_half i \<and> rnd_half i < 1) \<and>
    final_names harbour_scene_normalized = Some (''Ana'', ''Luis'') \<and>
    ''Ana'' \<noteq> [] \<and> ''Luis'' \<noteq> [] \<and> trim ''Ana'' = ''Ana'' \<and> trim ''Luis'' = ''Luis'' \<and>
    ''Ana'' \<noteq> ''__proto__'' \<and> ''Luis'' \<noteq> ''__proto__'' \<and>
    list_all (\<lambda>line. raw_speaker line = Inr ''Ana'' \<or> raw_speaker line = Inr ''Luis'')
      (supplied_script harbour_scene)) \<and>
   normalize rnd_zero harbour_scene_normalized = Inr harbour_scene_normalized"
  using normalize_idempotent [OF harbour_scene_eval rnd_half_range harbour_scene_names _ _
      harbour_scene_trimmed _ _ harbour_scene_speakers, of rnd_zero]
    harbour_scene_eval rnd_half_range harbour_scene_names harbour_scene_trimmed
    harbour_scene_speakers
  by simp

text \<open>
  C7. The claim fails on a script with the two speakers \<^verbatim>\<open>constructor\<close> and
  \<^verbatim>\<open>Marco\<close>, of which none matches a character: \<^verbatim>\<open>!speakerMap[s]\<close> is false for
  \<^verbatim>\<open>constructor\<close> because of the inherited member, so only \<^verbatim>\<open>Marco\<close> is unmapped;
  it goes to the first character and no speaker is left for the second.
\<close>

theorem speaker_map_two_strangers:
  "script_speakers (supplied_script two_strangers) = [''constructor'', ''Marco''] \<and>
   list_all (\<lambda>s. \<not> fuzzy_match s ''Ana'' \<and> \<not> fuzzy_match s ''Luis'') [''constructor'', ''Marco''] \<and>
   build_speakerMap ''Ana'' ''Luis'' [''constructor'', ''Marco''] = [(''Marco'', ''Ana'')] \<and>
   normalize rnd_zero two_strangers =
     Inr (JObj [(''characters'',
                 JArr [JObj [(''name'', JStr ''Ana''), (''gender'', JStr ''male''), (''voice'', JStr ''Puck'')],
                       JObj [(''name'', JStr ''Luis''), (''gender'', JStr ''male''), (''voice'', JStr ''Fenrir'')]] []),
                (''script'',
                 JArr [JObj [(''speaker'', JInherited ''constructor''), (''text'', JStr ''Bom dia.'')],
                       JObj [(''speaker'', JStr ''Ana''), (''text'', JStr ''Bom dia.'')]] [])])"
  by code_simp

text \<open>Hence the second character has no mapped speaker.\<close>

theorem speaker_map_two_strangers_witness:
  "\<not> isCharUsed
      (build_speakerMap ''Ana'' ''Luis'' (script_speakers (supplied_script two_strangers)))
      ''Luis''"
  using speaker_map_two_strangers by (simp add: isCharUsed_def)

end
